theory Spec2Isabelle
  imports Complex_Main "HOL-Library.Log_Nat"
begin

section \<open>Data model\<close>

text \<open>
  The repository holds two Express programs over MongoDB (through Mongoose):
  \<^item> \<^verbatim>\<open>server.js\<close>, the subscription API (model \<^verbatim>\<open>Subscription\<close>);
  \<^item> the admin console (model \<^verbatim>\<open>Key\<close>, session login, hourly removal of
    expired keys).
  Each handler is modelled as a function from the collection before the request to the
  response and the collection after it. A handler runs at one instant \<open>now\<close>
  (every \<^verbatim>\<open>new Date()\<close> of one request reads the same clock value), requests do
  not interleave, and the database itself does not fail, so the \<^verbatim>\<open>catch\<close>
  branches are reached only through the errors written out below.
\<close>

subsection \<open>Time\<close>

text \<open>
  A JavaScript \<^verbatim>\<open>Date\<close> is its time value: milliseconds since the epoch, an integer
  of absolute value at most \<open>8.64e15\<close>; outside that range the Date is invalid.
\<close>

type_synonym time = int

definition msPerDay :: int where
  "msPerDay = 86400000"

definition maxTime :: int where
  "maxTime = 8640000000000000"

definition validDate :: "time \<Rightarrow> bool" where
  "validDate t \<longleftrightarrow> - maxTime \<le> t \<and> t \<le> maxTime"

subsection \<open>The Subscription document\<close>

text \<open>
  \<^verbatim>\<open>subscriptionSchema\<close> of \<^verbatim>\<open>server.js\<close>. The three required paths always
  hold a value in a stored document; every other path may hold \<^verbatim>\<open>null\<close>
  (\<open>None\<close>). A JSON number is the rational that its double is.
\<close>

record subscription =
  key :: string
  userId :: rat
  username :: "string option"
  firstName :: "string option"
  lastName :: "string option"
  subscriptionType :: string
  createdAt :: "time option"
  expiresAt :: "time option"
  isActive :: "bool option"
  isFrozen :: "bool option"
  frozenDays :: "rat option"
  lastChecked :: "time option"

subsection \<open>The collection and its write journal\<close>

text \<open>
  The collection is the list of its documents in insertion order; a loaded document
  is identified by its position (its \<^verbatim>\<open>_id\<close>). The journal records, in order,
  every write command that reaches the database (the update or insert of a
  \<^verbatim>\<open>save\<close>, \<^verbatim>\<open>updateMany\<close>, \<^verbatim>\<open>findOneAndDelete\<close>).
\<close>

datatype write_op =
    SaveDoc nat subscription
  | InsertDoc subscription
  | UpdateMany nat
  | DeleteDoc nat

record db =
  subscriptions :: "subscription list"
  journal :: "write_op list"

text \<open>\<^verbatim>\<open>Model.findOne(filter)\<close>: the first document that matches, by position.\<close>

fun findOne :: "('a \<Rightarrow> bool) \<Rightarrow> 'a list \<Rightarrow> nat option" where
  "findOne p [] = None"
| "findOne p (x # xs) = (if p x then Some 0 else map_option Suc (findOne p xs))"

text \<open>
  \<^verbatim>\<open>doc.save()\<close> of a document loaded from position \<open>i\<close>. Mongoose tracks the
  paths whose value an assignment changed and sends an update for those only: when
  the document in memory equals the stored one, \<^verbatim>\<open>save()\<close> sends nothing and the
  database is not written.
\<close>

definition save :: "nat \<Rightarrow> subscription \<Rightarrow> db \<Rightarrow> db" where
  "save i doc d =
     (if doc = subscriptions d ! i then d
      else d\<lparr>subscriptions := (subscriptions d)[i := doc],
             journal := journal d @ [SaveDoc i doc]\<rparr>)"

text \<open>
  \<^verbatim>\<open>Model.updateMany(filter, update)\<close>: one atomic command; the count is
  \<^verbatim>\<open>modifiedCount\<close>.
\<close>

definition updateMany ::
  "(subscription \<Rightarrow> bool) \<Rightarrow> (subscription \<Rightarrow> subscription) \<Rightarrow> db \<Rightarrow> nat \<times> db" where
  "updateMany p f d =
     (let n = length (filter p (subscriptions d)) in
      (n, d\<lparr>subscriptions := map (\<lambda>s. if p s then f s else s) (subscriptions d),
             journal := journal d @ [UpdateMany n]\<rparr>))"

text \<open>The unique index on \<^verbatim>\<open>key\<close>.\<close>

definition unique_keys :: "db \<Rightarrow> bool" where
  "unique_keys d \<longleftrightarrow> distinct (map key (subscriptions d))"

subsection \<open>Responses\<close>

text \<open>
  What the client gets: one of the handler's answers, or no answer at all when the
  server process dies while it handles the request (\<open>NoResponse\<close>, which has no
  status).
\<close>

datatype response =
    Found subscription
  | Created subscription
  | Updated subscription
  | Deleted
  | Cleaned nat
  | MissingFields
  | NotFound
  | Conflict
  | Expired
  | InternalError
  | NoResponse

fun status :: "response \<Rightarrow> nat" where
  "status (Found _) = 200"
| "status (Created _) = 201"
| "status (Updated _) = 200"
| "status Deleted = 200"
| "status (Cleaned _) = 200"
| "status MissingFields = 400"
| "status NotFound = 404"
| "status Conflict = 409"
| "status Expired = 410"
| "status InternalError = 500"

section \<open>The subscription API\<close>

text \<open>
  The handlers are modelled after \<^verbatim>\<open>verifyApiKey\<close> has let the request through.
\<close>

subsection \<open>Validation: \<^verbatim>\<open>GET /users/user/connect/:key\<close>\<close>

text \<open>
  \<^verbatim>\<open>subscription.expiresAt && subscription.expiresAt < new Date()\<close>: a Date object
  is truthy, \<^verbatim>\<open>null\<close> is not.
\<close>

definition isExpired :: "time \<Rightarrow> subscription \<Rightarrow> bool" where
  "isExpired now s = (case expiresAt s of None \<Rightarrow> False | Some e \<Rightarrow> e < now)"

definition get_connect :: "string \<Rightarrow> time \<Rightarrow> db \<Rightarrow> response \<times> db" where
  "get_connect k now d =
     (case findOne (\<lambda>s. key s = k \<and> isActive s = Some True) (subscriptions d) of
        None \<Rightarrow> (NotFound, d)
      | Some i \<Rightarrow>
          (let subscription = subscriptions d ! i in
           if isExpired now subscription
           then (let subscription = subscription\<lparr>isActive := Some False\<rparr>
                 in (Expired, save i subscription d))
           else (let subscription = subscription\<lparr>lastChecked := Some now\<rparr>
                 in (Found subscription, save i subscription d))))"

subsection \<open>Expiry sweep: \<^verbatim>\<open>POST /subscriptions/cleanup\<close> and the hourly timer\<close>

text \<open>
  The filter \<^verbatim>\<open>{ expiresAt: { $lt: new Date() }, isActive: true }\<close>: \<^verbatim>\<open>$lt\<close> against
  a Date matches only documents whose \<^verbatim>\<open>expiresAt\<close> is a Date.
\<close>

definition cleanup_filter :: "time \<Rightarrow> subscription \<Rightarrow> bool" where
  "cleanup_filter now s \<longleftrightarrow>
     (case expiresAt s of None \<Rightarrow> False | Some e \<Rightarrow> e < now) \<and> isActive s = Some True"

definition post_cleanup :: "time \<Rightarrow> db \<Rightarrow> response \<times> db" where
  "post_cleanup now d =
     (let (modifiedCount, d') = updateMany (cleanup_filter now) (\<lambda>s. s\<lparr>isActive := Some False\<rparr>) d
      in (Cleaned modifiedCount, d'))"

definition scheduled_cleanup :: "time \<Rightarrow> db \<Rightarrow> db" where
  "scheduled_cleanup now d =
     snd (updateMany (cleanup_filter now) (\<lambda>s. s\<lparr>isActive := Some False\<rparr>) d)"

subsection \<open>Issue: \<^verbatim>\<open>POST /subscriptions\<close>\<close>

text \<open>
  The fields the handler reads from \<^verbatim>\<open>req.body\<close>, with the JSON type the schema
  and the arithmetic give them; \<open>None\<close> is a field that is absent or \<^verbatim>\<open>null\<close>.
  A field sent with another JSON type (a string for \<^verbatim>\<open>durationDays\<close>, say) goes
  through the coercions of JavaScript and Mongoose, which this part of the model does
  not cover; nor does it cover a number beyond the range of doubles, which
  \<^verbatim>\<open>JSON.parse\<close> reads as \<^verbatim>\<open>Infinity\<close>.
\<close>

record create_body =
  body_userId :: "rat option"
  body_username :: "string option"
  body_firstName :: "string option"
  body_lastName :: "string option"
  body_subscriptionType :: "string option"
  body_key :: "string option"
  body_durationDays :: "rat option"

text \<open>JavaScript truthiness of a number and of a string.\<close>

definition truthy_number :: "rat option \<Rightarrow> bool" where
  "truthy_number v = (case v of None \<Rightarrow> False | Some n \<Rightarrow> n \<noteq> 0)"

definition truthy_string :: "string option \<Rightarrow> bool" where
  "truthy_string v = (case v of None \<Rightarrow> False | Some s \<Rightarrow> s \<noteq> [])"

text \<open>
  JavaScript numbers are IEEE 754 doubles. A double is a rational; the sum of two
  doubles is their exact sum rounded to the nearest double, ties to the even
  significand. \<open>toDouble\<close> is that rounding with the 53-bit significand of a double
  (the exponent range is not limited: a sum beyond it is no valid Date either way).
\<close>

definition pow2 :: "int \<Rightarrow> rat" where
  "pow2 e = (if 0 \<le> e then 2 ^ nat e else 1 / 2 ^ nat (- e))"

text \<open>The exponent \<open>e\<close> with \<open>2^e \<le> |x| < 2^(e+1)\<close>, for \<open>x \<noteq> 0\<close>.\<close>

definition binade :: "rat \<Rightarrow> int" where
  "binade x =
     (let a = \<bar>x\<bar> in
      if 1 \<le> a then bitlen \<lfloor>a\<rfloor> - 1
      else (let k = bitlen \<lfloor>1 / a\<rfloor> - 1 in if a * pow2 k = 1 then - k else - k - 1))"

definition roundHalfEven :: "rat \<Rightarrow> int" where
  "roundHalfEven q =
     (let f = \<lfloor>q\<rfloor>; r = q - of_int f in
      if r < 1 / 2 then f else if 1 / 2 < r then f + 1 else if even f then f else f + 1)"

definition toDouble :: "rat \<Rightarrow> rat" where
  "toDouble x =
     (if x = 0 then 0
      else (let ulp = pow2 (binade x - 52) in of_int (roundHalfEven (x / ulp)) * ulp))"

definition double_add :: "rat \<Rightarrow> rat \<Rightarrow> rat" where
  "double_add a b = toDouble (a + b)"

text \<open>
  The server's time zone: its offset from UTC in milliseconds, as a function of a UTC
  time value and as a function of a local time value (\<^verbatim>\<open>LocalTZA(t, true)\<close> and
  \<^verbatim>\<open>LocalTZA(t, false)\<close> of the language specification).
\<close>

record zone =
  offsetAtUTC :: "time \<Rightarrow> int"
  offsetAtLocal :: "time \<Rightarrow> int"

text \<open>
  \<^verbatim>\<open>Date.prototype.setDate(date)\<close> on a Date with time value \<open>tv\<close> whose day of
  the month in local time (what \<^verbatim>\<open>getDate()\<close> returns) is \<open>day\<close>: the argument is
  truncated to an integer, the local time moves by whole days of \<open>msPerDay\<close>
  milliseconds to that day of the month, and the result is taken back to UTC with the
  offset in force at the new local time.
\<close>

definition toIntegerOrInfinity :: "rat \<Rightarrow> int" where
  "toIntegerOrInfinity x = (if x < 0 then \<lceil>x\<rceil> else \<lfloor>x\<rfloor>)"

definition setDate :: "zone \<Rightarrow> int \<Rightarrow> time \<Rightarrow> rat \<Rightarrow> time" where
  "setDate z day tv date =
     (let t = tv + offsetAtUTC z tv;
          newDate = t + (toIntegerOrInfinity date - day) * msPerDay
      in newDate - offsetAtLocal z newDate)"

text \<open>
  \<^verbatim>\<open>let expiresAt = null; if (durationDays && durationDays > 0) { expiresAt = new Date();
  expiresAt.setDate(expiresAt.getDate() + durationDays); }\<close>
\<close>

definition calculate_expiration :: "zone \<Rightarrow> int \<Rightarrow> time \<Rightarrow> rat option \<Rightarrow> time option" where
  "calculate_expiration z day now durationDays =
     (case durationDays of
        None \<Rightarrow> None
      | Some n \<Rightarrow>
          if n \<noteq> 0 \<and> n > 0 then Some (setDate z day now (double_add (of_int day) n)) else None)"

text \<open>
  \<^verbatim>\<open>new Subscription({ key, userId, username, firstName, lastName, subscriptionType,
  expiresAt, isActive: true })\<close> at time \<open>now\<close>, with the defaults of the schema for
  the paths that are not given.
\<close>

definition new_subscription ::
  "time \<Rightarrow> string \<Rightarrow> rat \<Rightarrow> string option \<Rightarrow> string option \<Rightarrow> string option \<Rightarrow> string
    \<Rightarrow> time option \<Rightarrow> subscription" where
  "new_subscription now k u uname fname lname t expires =
     \<lparr>key = k, userId = u, username = uname, firstName = fname, lastName = lname,
      subscriptionType = t, createdAt = Some now, expiresAt = expires,
      isActive = Some True, isFrozen = Some False, frozenDays = Some 0,
      lastChecked = Some now\<rparr>"

definition insertDoc :: "subscription \<Rightarrow> db \<Rightarrow> db" where
  "insertDoc doc d =
     d\<lparr>subscriptions := subscriptions d @ [doc], journal := journal d @ [InsertDoc doc]\<rparr>"

text \<open>
  \<^verbatim>\<open>subscription.save()\<close> of the new document validates it first (an invalid Date does
  not cast: the error has no \<^verbatim>\<open>code\<close>, hence 500), then inserts it, which the
  unique index refuses with error 11000 when the key is taken.
\<close>

definition post_subscriptions ::
  "zone \<Rightarrow> int \<Rightarrow> time \<Rightarrow> create_body \<Rightarrow> db \<Rightarrow> response \<times> db" where
  "post_subscriptions z day now b d =
     (if \<not> truthy_number (body_userId b) \<or> \<not> truthy_string (body_subscriptionType b)
         \<or> \<not> truthy_string (body_key b)
      then (MissingFields, d)
      else
        (case (body_userId b, body_subscriptionType b, body_key b) of
           (Some u, Some t, Some k) \<Rightarrow>
             (let expires = calculate_expiration z day now (body_durationDays b);
                  subscription =
                    new_subscription now k u (body_username b) (body_firstName b)
                      (body_lastName b) t expires
              in if (case expires of None \<Rightarrow> False | Some e \<Rightarrow> \<not> validDate e)
                 then (InternalError, d)
                 else if k \<in> set (map key (subscriptions d)) then (Conflict, d)
                 else (Created subscription, insertDoc subscription d))
         | _ \<Rightarrow> (MissingFields, d)))"

subsection \<open>Update: \<^verbatim>\<open>PUT /subscriptions/:key\<close>\<close>

text \<open>
  The request body is a JSON object: its own keys in order (no key twice), each with a
  JSON value.
\<close>

datatype jsval =
    JNull
  | JBool bool
  | JNum rat
  | JStr string
  | JArr "jsval list"
  | JObj "(string \<times> jsval) list"

text \<open>
  An assignment \<^verbatim>\<open>subscription[field] = value\<close> casts the value to the type of the
  path. A value that already has the type of the path is stored as it is and
  \<^verbatim>\<open>null\<close> is stored as \<^verbatim>\<open>null\<close>; what Mongoose makes of a value of another
  type (and of any JSON value on a Date path) is a parameter of the model, as is the
  effect of assigning to a name that is in \<^verbatim>\<open>schema.paths\<close> without being declared
  in the schema: such an assignment touches none of the declared paths; it may leave
  the document fit for \<^verbatim>\<open>save()\<close> or not (\<open>otherPath\<close>), and it may break
  the document object so that the process dies when the handler goes on
  (\<open>crashes\<close>, as assigning a number to \<^verbatim>\<open>constructor\<close> does).
\<close>

datatype 'a cast = CastError | Null | Val 'a

record coercions =
  stringOf :: "jsval \<Rightarrow> string cast"
  numberOf :: "jsval \<Rightarrow> rat cast"
  booleanOf :: "jsval \<Rightarrow> bool cast"
  dateOf :: "jsval \<Rightarrow> time cast"
  otherPath :: "string \<Rightarrow> jsval \<Rightarrow> bool"
  crashes :: "string \<Rightarrow> jsval \<Rightarrow> bool"

definition castString :: "coercions \<Rightarrow> jsval \<Rightarrow> string cast" where
  "castString C v = (case v of JNull \<Rightarrow> Null | JStr s \<Rightarrow> Val s | _ \<Rightarrow> stringOf C v)"

definition castNumber :: "coercions \<Rightarrow> jsval \<Rightarrow> rat cast" where
  "castNumber C v = (case v of JNull \<Rightarrow> Null | JNum n \<Rightarrow> Val n | _ \<Rightarrow> numberOf C v)"

definition castBoolean :: "coercions \<Rightarrow> jsval \<Rightarrow> bool cast" where
  "castBoolean C v = (case v of JNull \<Rightarrow> Null | JBool b \<Rightarrow> Val b | _ \<Rightarrow> booleanOf C v)"

definition castDate :: "coercions \<Rightarrow> jsval \<Rightarrow> time cast" where
  "castDate C v =
     (case v of
        JNull \<Rightarrow> Null
      | _ \<Rightarrow> (case dateOf C v of Val t \<Rightarrow> if validDate t then Val t else CastError | c \<Rightarrow> c))"

text \<open>The \<^verbatim>\<open>required\<close> validator of a String path refuses the empty string too.\<close>

fun nonEmpty :: "string cast \<Rightarrow> string cast" where
  "nonEmpty (Val s) = (if s = [] then Null else Val s)"
| "nonEmpty c = c"

text \<open>
  The document in memory and whether \<^verbatim>\<open>save()\<close> will still validate it. A cast
  error, or \<^verbatim>\<open>null\<close> on a required path, makes the later \<^verbatim>\<open>save()\<close> fail.
\<close>

fun required :: "'a cast \<Rightarrow> ('a \<Rightarrow> subscription) \<Rightarrow> subscription \<times> bool \<Rightarrow> subscription \<times> bool" where
  "required (Val x) upd (doc, ok) = (upd x, ok)"
| "required Null upd (doc, ok) = (doc, False)"
| "required CastError upd (doc, ok) = (doc, False)"

fun optional ::
  "'a cast \<Rightarrow> ('a option \<Rightarrow> subscription) \<Rightarrow> subscription \<times> bool \<Rightarrow> subscription \<times> bool" where
  "optional (Val x) upd (doc, ok) = (upd (Some x), ok)"
| "optional Null upd (doc, ok) = (upd None, ok)"
| "optional CastError upd (doc, ok) = (doc, False)"

text \<open>The paths the schema declares.\<close>

definition declared_paths :: "string list" where
  "declared_paths =
     [''key'', ''userId'', ''username'', ''firstName'', ''lastName'', ''subscriptionType'',
      ''createdAt'', ''expiresAt'', ''isActive'', ''isFrozen'', ''frozenDays'', ''lastChecked'']"

text \<open>
  Names that \<^verbatim>\<open>field in subscription.schema.paths\<close> accepts besides the twelve
  declared paths: the paths Mongoose adds, and the properties every plain object
  inherits.
\<close>

definition undeclared_paths :: "string list" where
  "undeclared_paths =
     [''_id'', ''__v'', ''constructor'', ''hasOwnProperty'', ''isPrototypeOf'',
      ''propertyIsEnumerable'', ''toLocaleString'', ''toString'', ''valueOf'',
      ''__defineGetter__'', ''__defineSetter__'', ''__lookupGetter__'',
      ''__lookupSetter__'', ''__proto__'']"

definition assign ::
  "coercions \<Rightarrow> string \<Rightarrow> jsval \<Rightarrow> subscription \<times> bool \<Rightarrow> subscription \<times> bool" where
  "assign C field v st =
     (let doc = fst st in
      if field = ''key'' then required (nonEmpty (castString C v)) (\<lambda>x. doc\<lparr>key := x\<rparr>) st
      else if field = ''userId'' then required (castNumber C v) (\<lambda>x. doc\<lparr>userId := x\<rparr>) st
      else if field = ''username'' then optional (castString C v) (\<lambda>x. doc\<lparr>username := x\<rparr>) st
      else if field = ''firstName'' then optional (castString C v) (\<lambda>x. doc\<lparr>firstName := x\<rparr>) st
      else if field = ''lastName'' then optional (castString C v) (\<lambda>x. doc\<lparr>lastName := x\<rparr>) st
      else if field = ''subscriptionType''
        then required (nonEmpty (castString C v)) (\<lambda>x. doc\<lparr>subscriptionType := x\<rparr>) st
      else if field = ''createdAt'' then optional (castDate C v) (\<lambda>x. doc\<lparr>createdAt := x\<rparr>) st
      else if field = ''expiresAt'' then optional (castDate C v) (\<lambda>x. doc\<lparr>expiresAt := x\<rparr>) st
      else if field = ''isActive'' then optional (castBoolean C v) (\<lambda>x. doc\<lparr>isActive := x\<rparr>) st
      else if field = ''isFrozen'' then optional (castBoolean C v) (\<lambda>x. doc\<lparr>isFrozen := x\<rparr>) st
      else if field = ''frozenDays'' then optional (castNumber C v) (\<lambda>x. doc\<lparr>frozenDays := x\<rparr>) st
      else if field = ''lastChecked''
        then optional (castDate C v) (\<lambda>x. doc\<lparr>lastChecked := x\<rparr>) st
      else if field \<in> set undeclared_paths then (doc, snd st \<and> otherPath C field v)
      else st)"

text \<open>\<^verbatim>\<open>Object.keys(updates).forEach(field => ...)\<close>\<close>

fun assign_all ::
  "coercions \<Rightarrow> (string \<times> jsval) list \<Rightarrow> subscription \<times> bool \<Rightarrow> subscription \<times> bool" where
  "assign_all C [] st = st"
| "assign_all C ((field, v) # updates) st = assign_all C updates (assign C field v st)"

text \<open>An update that breaks the document object.\<close>

definition breaks_document :: "coercions \<Rightarrow> (string \<times> jsval) list \<Rightarrow> bool" where
  "breaks_document C updates =
     list_ex (\<lambda>(field, v). field \<in> set undeclared_paths \<and> crashes C field v) updates"

text \<open>
  \<^verbatim>\<open>save()\<close> fails when the document does not validate or when the new key is
  another document's; the handler answers 500 to both. When the assignments broke
  the document object the process dies and nothing is stored.
\<close>

definition put_subscription ::
  "coercions \<Rightarrow> string \<Rightarrow> (string \<times> jsval) list \<Rightarrow> db \<Rightarrow> response \<times> db" where
  "put_subscription C k updates d =
     (case findOne (\<lambda>s. key s = k) (subscriptions d) of
        None \<Rightarrow> (NotFound, d)
      | Some i \<Rightarrow>
          (let (subscription, ok) = assign_all C updates (subscriptions d ! i, True);
               others = take i (subscriptions d) @ drop (Suc i) (subscriptions d)
           in if breaks_document C updates then (NoResponse, d)
              else if \<not> ok then (InternalError, d)
              else if key subscription \<in> set (map key others) then (InternalError, d)
              else (Updated subscription, save i subscription d)))"

text \<open>
  A caster for evaluating the model where no coercion is needed: it refuses every value
  that is not of the type of its path, and lets the undeclared names pass unharmed.
\<close>

definition no_coercion :: coercions where
  "no_coercion =
     \<lparr>stringOf = (\<lambda>v. CastError), numberOf = (\<lambda>v. CastError), booleanOf = (\<lambda>v. CastError),
      dateOf = (\<lambda>v. CastError), otherPath = (\<lambda>field v. True),
      crashes = (\<lambda>field v. False)\<rparr>"

subsection \<open>Delete: \<^verbatim>\<open>DELETE /subscriptions/:key\<close>\<close>

definition delete_subscription :: "string \<Rightarrow> db \<Rightarrow> response \<times> db" where
  "delete_subscription k d =
     (case findOne (\<lambda>s. key s = k) (subscriptions d) of
        None \<Rightarrow> (NotFound, d)
      | Some i \<Rightarrow>
          (Deleted,
           d\<lparr>subscriptions := take i (subscriptions d) @ drop (Suc i) (subscriptions d),
             journal := journal d @ [DeleteDoc i]\<rparr>))"

section \<open>The admin console\<close>

text \<open>
  \<^verbatim>\<open>keySchema\<close> of the admin console, in a collection of its own. The field names
  carry the prefix \<open>k_\<close> to keep them apart from those of \<open>subscription\<close>; \<open>k_id\<close> is
  \<^verbatim>\<open>_id\<close>.
\<close>

record key_doc =
  k_id :: string
  k_key :: string
  k_userId :: "string option"
  k_subscriptionType :: string
  k_createdAt :: "time option"
  k_expiresAt :: "time option"
  k_isActive :: bool
  k_isPermanent :: bool

datatype admin_response = Toggled bool | ToggleError

fun admin_status :: "admin_response \<Rightarrow> nat" where
  "admin_status (Toggled _) = 200"
| "admin_status ToggleError = 500"

text \<open>
  \<^verbatim>\<open>POST /keys/:id/toggle\<close>. When \<^verbatim>\<open>findById\<close> finds nothing, \<^verbatim>\<open>key.isActive\<close>
  throws and the handler answers 500.
\<close>

definition post_keys_toggle :: "string \<Rightarrow> key_doc list \<Rightarrow> admin_response \<times> key_doc list" where
  "post_keys_toggle oid ks =
     (case findOne (\<lambda>k. k_id k = oid) ks of
        None \<Rightarrow> (ToggleError, ks)
      | Some i \<Rightarrow>
          (let key = ks ! i;
               key = key\<lparr>k_isActive := \<not> k_isActive key\<rparr>
           in (Toggled (k_isActive key), ks[i := key])))"

text \<open>
  The hourly timer of the admin console:
  \<^verbatim>\<open>Key.deleteMany({ isPermanent: false, expiresAt: { $lt: new Date() } })\<close>.
\<close>

definition expired_key_filter :: "time \<Rightarrow> key_doc \<Rightarrow> bool" where
  "expired_key_filter now k \<longleftrightarrow>
     k_isPermanent k = False \<and> (case k_expiresAt k of None \<Rightarrow> False | Some e \<Rightarrow> e < now)"

definition deleteMany :: "('a \<Rightarrow> bool) \<Rightarrow> 'a list \<Rightarrow> nat \<times> 'a list" where
  "deleteMany p ks = (length (filter p ks), filter (\<lambda>k. \<not> p k) ks)"

definition scheduled_key_cleanup :: "time \<Rightarrow> key_doc list \<Rightarrow> key_doc list" where
  "scheduled_key_cleanup now ks = snd (deleteMany (expired_key_filter now) ks)"

section \<open>The server as a sequence of events\<close>

text \<open>
  What changes the collection without an administrator: a validation request, a tick
  of the hourly timer, and the on-demand cleanup request.
\<close>

datatype event =
    Validate string time
  | Tick time
  | Cleanup time

fun step :: "event \<Rightarrow> db \<Rightarrow> db" where
  "step (Validate k now) d = snd (get_connect k now d)"
| "step (Tick now) d = scheduled_cleanup now d"
| "step (Cleanup now) d = snd (post_cleanup now d)"

fun run :: "event list \<Rightarrow> db \<Rightarrow> db" where
  "run [] d = d"
| "run (e # es) d = run es (step e d)"

fun instant :: "event \<Rightarrow> time" where
  "instant (Validate k now) = now"
| "instant (Tick now) = now"
| "instant (Cleanup now) = now"

text \<open>
  What one event at time \<open>now\<close> may do to one stored document: nothing, the
  deactivation of an expired active document, or the timestamp of a successful validation.
\<close>

definition expiry_step :: "time \<Rightarrow> subscription \<Rightarrow> subscription \<Rightarrow> bool" where
  "expiry_step now r r' \<longleftrightarrow>
     r' = r
     \<or> (r' = r\<lparr>isActive := Some False\<rparr> \<and> cleanup_filter now r)
     \<or> (r' = r\<lparr>lastChecked := Some now\<rparr> \<and> isActive r = Some True \<and> isExpired now r = False)"

text \<open>What any number of events may do to one stored document.\<close>

definition drift :: "subscription \<Rightarrow> subscription \<Rightarrow> bool" where
  "drift r r' \<longleftrightarrow>
     r'\<lparr>isActive := None, lastChecked := None\<rparr> = r\<lparr>isActive := None, lastChecked := None\<rparr>
     \<and> (isActive r' = isActive r \<or> (isActive r' = Some False \<and> expiresAt r \<noteq> None))"

section \<open>Auxiliary notions for the statements\<close>

text \<open>The writes of one call: what the call appended to the journal.\<close>

definition writes_between :: "db \<Rightarrow> db \<Rightarrow> write_op list" where
  "writes_between d d' = drop (length (journal d)) (journal d')"

text \<open>A document is deactivated by a step when it was active and the step stored it inactive.\<close>

definition deactivated :: "subscription \<Rightarrow> subscription \<Rightarrow> bool" where
  "deactivated r r' \<longleftrightarrow> isActive r = Some True \<and> r' = r\<lparr>isActive := Some False\<rparr>"

text \<open>
  The rule of the specification's lifecycle engine, in its words, for comparison with
  the two code paths: \<open>isExpired(record, now)\<close> is true iff \<open>expiresAt\<close> is
  present and \<open>now > expiresAt\<close>; \<open>evaluate(record, now)\<close> produces the
  record with \<open>isActive = false\<close> if the record is expired and active, and the
  record unchanged otherwise.
\<close>

definition spec_isExpired :: "subscription \<Rightarrow> time \<Rightarrow> bool" where
  "spec_isExpired record now = (case expiresAt record of None \<Rightarrow> False | Some e \<Rightarrow> now > e)"

definition spec_evaluate :: "subscription \<Rightarrow> time \<Rightarrow> subscription" where
  "spec_evaluate record now =
     (if spec_isExpired record now \<and> isActive record = Some True
      then record\<lparr>isActive := Some False\<rparr> else record)"

text \<open>Sample documents for evaluating the model.\<close>

definition timed :: subscription where
  "timed =
     \<lparr>key = ''K1'', userId = 7, username = None, firstName = None, lastName = None,
      subscriptionType = ''pro'', createdAt = Some 0, expiresAt = Some 100,
      isActive = Some True, isFrozen = Some False, frozenDays = Some 0,
      lastChecked = Some 0\<rparr>"

definition permanent :: subscription where
  "permanent = timed\<lparr>key := ''K2'', expiresAt := None\<rparr>"

definition sample_db :: db where
  "sample_db = \<lparr>subscriptions = [timed, permanent], journal = []\<rparr>"

text \<open>A zone without offset: the server runs on UTC.\<close>

definition utc :: zone where
  "utc = \<lparr>offsetAtUTC = (\<lambda>t. 0), offsetAtLocal = (\<lambda>t. 0)\<rparr>"

definition sample_body :: create_body where
  "sample_body =
     \<lparr>body_userId = Some 42, body_username = None, body_firstName = None,
      body_lastName = None, body_subscriptionType = Some ''pro'', body_key = Some ''K3'',
      body_durationDays = Some 30\<rparr>"

text \<open>The created document can be stored: its \<open>expiresAt\<close>, when there is one, is a valid Date.\<close>

definition storable_expiration :: "zone \<Rightarrow> int \<Rightarrow> time \<Rightarrow> create_body \<Rightarrow> bool" where
  "storable_expiration z day now b =
     (case calculate_expiration z day now (body_durationDays b) of
        None \<Rightarrow> True
      | Some e \<Rightarrow> validDate e)"

definition lapsed_key :: key_doc where
  "lapsed_key =
     \<lparr>k_id = ''65a000000000000000000001'', k_key = ''K1'', k_userId = None,
      k_subscriptionType = ''pro'', k_createdAt = Some 0, k_expiresAt = Some 100,
      k_isActive = False, k_isPermanent = False\<rparr>"

definition lapsed_db :: db where
  "lapsed_db = \<lparr>subscriptions = [timed\<lparr>isActive := Some False\<rparr>, permanent], journal = []\<rparr>"

section \<open>Properties of the store primitives\<close>

lemma findOne_SomeD:
  "findOne p xs = Some i \<Longrightarrow> i < length xs \<and> p (xs ! i) \<and> (\<forall>j<i. \<not> p (xs ! j))"
proof (induction xs arbitrary: i)
  case Nil
  then show ?case by simp
next
  case (Cons x xs)
  show ?case
  proof (cases "p x")
    case True
    with Cons.prems show ?thesis by simp
  next
    case False
    with Cons.prems obtain j where j: "findOne p xs = Some j" "i = Suc j"
      by auto
    from Cons.IH [OF j(1)] False j(2) show ?thesis
      by (auto simp: less_Suc_eq_0_disj)
  qed
qed

lemma findOne_None_iff: "findOne p xs = None \<longleftrightarrow> (\<forall>x\<in>set xs. \<not> p x)"
  by (induction xs) auto

lemma findOne_first:
  "i < length xs \<Longrightarrow> p (xs ! i) \<Longrightarrow> (\<forall>j<i. \<not> p (xs ! j)) \<Longrightarrow> findOne p xs = Some i"
proof (induction xs arbitrary: i)
  case Nil
  then show ?case by simp
next
  case (Cons x xs)
  show ?case
  proof (cases i)
    case 0
    with Cons.prems show ?thesis by simp
  next
    case (Suc j)
    with Cons.prems have "\<not> p x" by auto
    moreover from Suc Cons.prems have "findOne p xs = Some j"
      by (intro Cons.IH) auto
    ultimately show ?thesis using Suc by simp
  qed
qed

lemma findOne_by_key:
  assumes "distinct (map key xs)" and "i < length xs" and "q (xs ! i)"
  shows "findOne (\<lambda>s. key s = key (xs ! i) \<and> q s) xs = Some i"
proof (rule findOne_first)
  show "i < length xs" by fact
  show "key (xs ! i) = key (xs ! i) \<and> q (xs ! i)" using assms(3) by simp
  show "\<forall>j<i. \<not> (key (xs ! j) = key (xs ! i) \<and> q (xs ! j))"
  proof (intro allI impI)
    fix j assume "j < i"
    with assms(2) have "j < length (map key xs)" "i < length (map key xs)" "j \<noteq> i"
      by simp_all
    with assms(1) have "map key xs ! j \<noteq> map key xs ! i"
      using nth_eq_iff_index_eq [of "map key xs" j i] by blast
    with \<open>j < i\<close> assms(2) show "\<not> (key (xs ! j) = key (xs ! i) \<and> q (xs ! j))"
      by simp
  qed
qed


lemma cleanup_filter_iff: "cleanup_filter now s \<longleftrightarrow> isExpired now s \<and> isActive s = Some True"
  by (simp add: cleanup_filter_def isExpired_def)

lemma get_connect_cases:
  "get_connect k now d =
     (case findOne (\<lambda>s. key s = k \<and> isActive s = Some True) (subscriptions d) of
        None \<Rightarrow> (NotFound, d)
      | Some i \<Rightarrow>
          if isExpired now (subscriptions d ! i)
          then (Expired, save i ((subscriptions d ! i)\<lparr>isActive := Some False\<rparr>) d)
          else (Found ((subscriptions d ! i)\<lparr>lastChecked := Some now\<rparr>),
                save i ((subscriptions d ! i)\<lparr>lastChecked := Some now\<rparr>) d))"
  by (simp add: get_connect_def Let_def split: option.splits)

lemma subscriptions_save [simp]: "subscriptions (save i doc d) = (subscriptions d)[i := doc]"
  by (simp add: save_def)

lemma journal_save:
  "journal (save i doc d) =
     (if doc = subscriptions d ! i then journal d else journal d @ [SaveDoc i doc])"
  by (simp add: save_def)

lemma subscriptions_updateMany [simp]:
  "subscriptions (snd (updateMany p f d)) = map (\<lambda>s. if p s then f s else s) (subscriptions d)"
  by (simp add: updateMany_def Let_def)

lemma subscriptions_scheduled_cleanup:
  "subscriptions (scheduled_cleanup now d) =
     map (\<lambda>s. if cleanup_filter now s then s\<lparr>isActive := Some False\<rparr> else s) (subscriptions d)"
  by (simp add: scheduled_cleanup_def)

lemma snd_post_cleanup: "snd (post_cleanup now d) = scheduled_cleanup now d"
  by (simp add: post_cleanup_def scheduled_cleanup_def split_beta Let_def)

lemma expiry_step_refl: "expiry_step now r r"
  by (simp add: expiry_step_def)

lemma list_all2_expiry_refl: "list_all2 (expiry_step now) xs xs"
  by (simp add: list_all2_same expiry_step_refl)

lemma get_connect_expiry_step:
  "list_all2 (expiry_step now) (subscriptions d) (subscriptions (snd (get_connect k now d)))"
proof (cases "findOne (\<lambda>s. key s = k \<and> isActive s = Some True) (subscriptions d)")
  case None
  then show ?thesis
    by (simp add: get_connect_cases list_all2_expiry_refl)
next
  case (Some i)
  let ?r = "subscriptions d ! i"
  from findOne_SomeD [OF Some] have i: "i < length (subscriptions d)"
    and act: "isActive ?r = Some True" by auto
  have upd: "list_all2 (expiry_step now) (subscriptions d) ((subscriptions d)[i := r'])"
    if "expiry_step now ?r r'" for r'
  proof -
    have "list_all2 (expiry_step now) ((subscriptions d)[i := ?r]) ((subscriptions d)[i := r'])"
      by (rule list_all2_update_cong [OF list_all2_expiry_refl that])
    then show ?thesis by simp
  qed
  show ?thesis
  proof (cases "isExpired now ?r")
    case True
    with act have "expiry_step now ?r (?r\<lparr>isActive := Some False\<rparr>)"
      by (simp add: expiry_step_def cleanup_filter_iff)
    from upd [OF this] Some True show ?thesis
      by (simp add: get_connect_cases)
  next
    case False
    with act have "expiry_step now ?r (?r\<lparr>lastChecked := Some now\<rparr>)"
      by (simp add: expiry_step_def)
    from upd [OF this] Some False show ?thesis
      by (simp add: get_connect_cases)
  qed
qed

lemma scheduled_cleanup_expiry_step:
  "list_all2 (expiry_step now) (subscriptions d) (subscriptions (scheduled_cleanup now d))"
  by (simp add: subscriptions_scheduled_cleanup list_all2_map2 list_all2_same expiry_step_def)

lemma step_expiry_step:
  "list_all2 (expiry_step (instant e)) (subscriptions d) (subscriptions (step e d))"
  by (cases e)
    (simp_all add: get_connect_expiry_step scheduled_cleanup_expiry_step snd_post_cleanup)

lemma expiry_step_drift: "expiry_step now r r' \<Longrightarrow> drift r r'"
  by (auto simp: expiry_step_def drift_def cleanup_filter_def split: option.splits)

lemma drift_refl: "drift r r"
  by (simp add: drift_def)

lemma drift_expiresAt: "drift r r' \<Longrightarrow> expiresAt r' = expiresAt r"
proof -
  assume "drift r r'"
  then have "expiresAt (r'\<lparr>isActive := None, lastChecked := None\<rparr>)
      = expiresAt (r\<lparr>isActive := None, lastChecked := None\<rparr>)"
    by (simp only: drift_def)
  then show ?thesis by simp
qed

lemma drift_key: "drift r r' \<Longrightarrow> key r' = key r"
proof -
  assume "drift r r'"
  then have "key (r'\<lparr>isActive := None, lastChecked := None\<rparr>)
      = key (r\<lparr>isActive := None, lastChecked := None\<rparr>)"
    by (simp only: drift_def)
  then show ?thesis by simp
qed

lemma drift_trans:
  assumes "drift a b" and "drift b c"
  shows "drift a c"
proof -
  from assms have e: "expiresAt b = expiresAt a"
    by (simp add: drift_expiresAt)
  from assms have
    "c\<lparr>isActive := None, lastChecked := None\<rparr> = a\<lparr>isActive := None, lastChecked := None\<rparr>"
    by (simp add: drift_def)
  moreover from assms e
  have "isActive c = isActive a \<or> (isActive c = Some False \<and> expiresAt a \<noteq> None)"
    by (auto simp: drift_def)
  ultimately show ?thesis by (simp add: drift_def)
qed

lemma step_drift: "list_all2 drift (subscriptions d) (subscriptions (step e d))"
  by (rule list_all2_mono [OF step_expiry_step]) (rule expiry_step_drift)

lemma run_drift: "list_all2 drift (subscriptions d) (subscriptions (run evs d))"
proof (induction evs arbitrary: d)
  case Nil
  show ?case by (simp add: list_all2_same drift_refl)
next
  case (Cons e evs)
  have "list_all2 drift (subscriptions d) (subscriptions (step e d))"
    by (rule step_drift)
  moreover have "list_all2 drift (subscriptions (step e d)) (subscriptions (run evs (step e d)))"
    by (rule Cons.IH)
  ultimately have "list_all2 drift (subscriptions d) (subscriptions (run evs (step e d)))"
    by (rule list_all2_trans [rotated]) (rule drift_trans)
  then show ?case by simp
qed

lemma run_keys: "map key (subscriptions (run evs d)) = map key (subscriptions d)"
proof -
  have "list_all2 (\<lambda>r r'. key r = key r') (subscriptions d) (subscriptions (run evs d))"
    by (rule list_all2_mono [OF run_drift]) (simp add: drift_key)
  then show ?thesis
    by (simp add: list_all2_conv_all_nth list_eq_iff_nth_eq)
qed


section \<open>Validation and sweep\<close>

lemma get_connect_by_position:
  assumes "unique_keys d" and "i < length (subscriptions d)"
  shows "get_connect (key (subscriptions d ! i)) now d =
     (if isActive (subscriptions d ! i) = Some True
      then if isExpired now (subscriptions d ! i)
           then (Expired, save i ((subscriptions d ! i)\<lparr>isActive := Some False\<rparr>) d)
           else (Found ((subscriptions d ! i)\<lparr>lastChecked := Some now\<rparr>),
                 save i ((subscriptions d ! i)\<lparr>lastChecked := Some now\<rparr>) d)
      else (NotFound, d))"
proof (cases "isActive (subscriptions d ! i) = Some True")
  case True
  with assms
  have "findOne (\<lambda>s. key s = key (subscriptions d ! i) \<and> isActive s = Some True) (subscriptions d)
      = Some i"
    unfolding unique_keys_def by (intro findOne_by_key) auto
  with True show ?thesis by (simp add: get_connect_cases)
next
  case False
  have "findOne (\<lambda>s. key s = key (subscriptions d ! i) \<and> isActive s = Some True) (subscriptions d)
      = None"
  proof (rule ccontr)
    assume "\<not> ?thesis"
    then obtain j
      where j: "findOne (\<lambda>s. key s = key (subscriptions d ! i) \<and> isActive s = Some True)
          (subscriptions d) = Some j"
      by auto
    from findOne_SomeD [OF j] have jl: "j < length (subscriptions d)"
      and jk: "key (subscriptions d ! j) = key (subscriptions d ! i)"
      and ja: "isActive (subscriptions d ! j) = Some True"
      by auto
    from jl assms(2) jk have "map key (subscriptions d) ! j = map key (subscriptions d) ! i"
      by simp
    with assms jl have "j = i"
      unfolding unique_keys_def
      using nth_eq_iff_index_eq [of "map key (subscriptions d)" j i] by simp
    with ja False show False by simp
  qed
  with False show ?thesis by (simp add: get_connect_cases)
qed

text \<open>
  C3. For every stored record and every time \<open>now\<close>, a validation read of the record's
  key deactivates the record exactly when a sweep at \<open>now\<close> deactivates it, namely when
  the record matches the sweep filter (\<open>expiresAt\<close> present and earlier than \<open>now\<close>,
  \<open>isActive\<close> true); otherwise neither changes \<open>isActive\<close>, and the sweep leaves
  the record as it is. Both paths store what the rule \<open>evaluate\<close> of the
  specification produces (the validation read up to the \<open>lastChecked\<close> stamp of a
  successful validation).
\<close>

theorem lazy_expiration_agrees_with_sweep:
  assumes "unique_keys d" and "i < length (subscriptions d)"
  shows
    "(deactivated (subscriptions d ! i)
        (subscriptions (snd (get_connect (key (subscriptions d ! i)) now d)) ! i)
      \<longleftrightarrow> cleanup_filter now (subscriptions d ! i))
     \<and> (deactivated (subscriptions d ! i) (subscriptions (scheduled_cleanup now d) ! i)
      \<longleftrightarrow> cleanup_filter now (subscriptions d ! i))
     \<and> (cleanup_filter now (subscriptions d ! i)
      \<longleftrightarrow> (\<exists>e. expiresAt (subscriptions d ! i) = Some e \<and> e < now)
          \<and> isActive (subscriptions d ! i) = Some True)
     \<and> (\<not> cleanup_filter now (subscriptions d ! i) \<longrightarrow>
          isActive (subscriptions (snd (get_connect (key (subscriptions d ! i)) now d)) ! i)
            = isActive (subscriptions d ! i)
          \<and> subscriptions (scheduled_cleanup now d) ! i = subscriptions d ! i)
     \<and> subscriptions (scheduled_cleanup now d) ! i = spec_evaluate (subscriptions d ! i) now
     \<and> (subscriptions (snd (get_connect (key (subscriptions d ! i)) now d)) ! i)
          \<lparr>lastChecked := lastChecked (subscriptions d ! i)\<rparr>
        = spec_evaluate (subscriptions d ! i) now"
proof -
  let ?r = "subscriptions d ! i"
  let ?v = "subscriptions (snd (get_connect (key ?r) now d)) ! i"
  let ?w = "subscriptions (scheduled_cleanup now d) ! i"
  have filt: "cleanup_filter now ?r
      \<longleftrightarrow> (\<exists>e. expiresAt ?r = Some e \<and> e < now) \<and> isActive ?r = Some True"
    by (auto simp: cleanup_filter_def split: option.splits)
  have spec: "spec_evaluate ?r now = (if cleanup_filter now ?r then ?r\<lparr>isActive := Some False\<rparr> else ?r)"
    by (simp add: spec_evaluate_def spec_isExpired_def cleanup_filter_def)
  have no: "\<not> deactivated r r'" if "isActive r' = isActive r" for r r' :: subscription
  proof
    assume "deactivated r r'"
    then have "isActive r = Some True" and "isActive r' = isActive (r\<lparr>isActive := Some False\<rparr>)"
      by (simp_all add: deactivated_def)
    with that show False by simp
  qed
  show ?thesis
  proof (cases "cleanup_filter now ?r")
    case True
    then have e: "isExpired now ?r" and a: "isActive ?r = Some True"
      by (simp_all add: cleanup_filter_iff)
    from e a assms(2) have v: "?v = ?r\<lparr>isActive := Some False\<rparr>"
      by (simp add: get_connect_by_position [OF assms])
    from True assms(2) have w: "?w = ?r\<lparr>isActive := Some False\<rparr>"
      by (simp add: subscriptions_scheduled_cleanup)
    have "?v\<lparr>lastChecked := lastChecked ?r\<rparr> = spec_evaluate ?r now"
      by (simp add: v spec True)
    moreover have "?w = spec_evaluate ?r now"
      by (simp add: w spec True)
    moreover have "deactivated ?r ?v" "deactivated ?r ?w"
      using a by (simp_all add: v w deactivated_def)
    ultimately show ?thesis using True filt
      by simp
  next
    case False
    from False assms(2) have v: "isActive ?v = isActive ?r"
      by (simp add: get_connect_by_position [OF assms] cleanup_filter_iff)
    from False assms(2) have v': "?v\<lparr>lastChecked := lastChecked ?r\<rparr> = ?r"
      by (simp add: get_connect_by_position [OF assms] cleanup_filter_iff)
    from False assms(2) have w: "?w = ?r"
      by (simp add: subscriptions_scheduled_cleanup)
    from no [OF v] have "\<not> deactivated ?r ?v" .
    moreover from w have "\<not> deactivated ?r ?w"
      by (simp add: no)
    moreover have "spec_evaluate ?r now = ?r"
      by (simp add: spec False)
    ultimately show ?thesis using False v v' w filt by simp
  qed
qed

theorem lazy_expiration_agrees_with_sweep_witness:
  "unique_keys sample_db \<and> 0 < length (subscriptions sample_db)
   \<and> deactivated timed (subscriptions (snd (get_connect ''K1'' 200 sample_db)) ! 0)
   \<and> deactivated timed (subscriptions (scheduled_cleanup 200 sample_db) ! 0)
   \<and> cleanup_filter 200 timed"
proof -
  have u: "unique_keys sample_db"
    by (simp add: unique_keys_def sample_db_def timed_def permanent_def)
  have l: "0 < length (subscriptions sample_db)"
    by (simp add: sample_db_def)
  have f: "cleanup_filter 200 timed"
    by (simp add: cleanup_filter_def timed_def)
  have r: "subscriptions sample_db ! 0 = timed"
    by (simp add: sample_db_def)
  have k: "key timed = ''K1''"
    by (simp add: timed_def)
  note t = lazy_expiration_agrees_with_sweep [OF u l, of 200, unfolded r k]
  from t f u l show ?thesis
    by blast
qed


lemma never_found_again:
  assumes u: "distinct (map key xs)" and i: "i < length xs"
    and off: "isActive (xs ! i) = Some False"
    and dr: "list_all2 drift xs ys"
  shows "findOne (\<lambda>s. key s = key (xs ! i) \<and> isActive s = Some True) ys = None"
proof -
  from dr have len: "length ys = length xs"
    by (simp add: list_all2_lengthD)
  have "\<not> (key (ys ! j) = key (xs ! i) \<and> isActive (ys ! j) = Some True)" if j: "j < length ys" for j
  proof
    assume a: "key (ys ! j) = key (xs ! i) \<and> isActive (ys ! j) = Some True"
    from dr j len have d: "drift (xs ! j) (ys ! j)"
      by (simp add: list_all2_nthD2)
    from a drift_key [OF d] j len i have "map key xs ! j = map key xs ! i"
      by simp
    with u j len i have "j = i"
      using nth_eq_iff_index_eq [of "map key xs" j i] by simp
    with d off have "isActive (ys ! j) = Some False"
      by (auto simp: drift_def)
    with a show False by simp
  qed
  then have "\<forall>s\<in>set ys. \<not> (key s = key (xs ! i) \<and> isActive s = Some True)"
    by (metis in_set_conv_nth)
  then show ?thesis by (simp add: findOne_None_iff)
qed

text \<open>
  C4. A validation call for the key of a stored record that is active and whose
  \<open>expiresAt\<close> is present and earlier than \<open>now\<close> stores the record with
  \<open>isActive = false\<close> (one \<open>save\<close>, in the state the call returns), answers
  Expired (HTTP 410), and every later validation of that key, after any number of
  further validations and sweeps, answers NotFound: the record is seen as inactive.
\<close>

theorem expired_validation_persists_deactivation:
  assumes "unique_keys d" and "i < length (subscriptions d)"
    and "isActive (subscriptions d ! i) = Some True"
    and "expiresAt (subscriptions d ! i) = Some e" and "e < now"
  shows
    "get_connect (key (subscriptions d ! i)) now d
       = (Expired, save i ((subscriptions d ! i)\<lparr>isActive := Some False\<rparr>) d)
     \<and> status Expired = 410
     \<and> isActive (subscriptions (snd (get_connect (key (subscriptions d ! i)) now d)) ! i)
         = Some False
     \<and> (\<forall>evs now'.
          fst (get_connect (key (subscriptions d ! i)) now'
                (run evs (snd (get_connect (key (subscriptions d ! i)) now d))))
            = NotFound)"
proof -
  let ?r = "subscriptions d ! i"
  let ?d' = "save i (?r\<lparr>isActive := Some False\<rparr>) d"
  from assms(4,5) have "isExpired now ?r"
    by (simp add: isExpired_def)
  with assms(3) have res: "get_connect (key ?r) now d = (Expired, ?d')"
    by (simp add: get_connect_by_position [OF assms(1,2)])
  from assms(2) have off: "isActive (subscriptions ?d' ! i) = Some False"
    by simp
  have "(map key (subscriptions d))[i := map key (subscriptions d) ! i] = map key (subscriptions d)"
    by (rule list_update_id)
  with assms(2) have keys: "map key (subscriptions ?d') = map key (subscriptions d)"
    by (simp add: map_update)
  with assms(1) have u: "distinct (map key (subscriptions ?d'))"
    by (simp add: unique_keys_def)
  from assms(2) have i': "i < length (subscriptions ?d')" and k: "key (subscriptions ?d' ! i) = key ?r"
    by simp_all
  have "fst (get_connect (key ?r) now' (run evs ?d')) = NotFound" for evs now'
  proof -
    from never_found_again [OF u i' off run_drift]
    have "findOne (\<lambda>s. key s = key ?r \<and> isActive s = Some True) (subscriptions (run evs ?d'))
        = None"
      by (simp only: k)
    then show ?thesis by (simp add: get_connect_cases)
  qed
  with res off show ?thesis by simp
qed

theorem expired_validation_persists_deactivation_witness:
  "unique_keys sample_db \<and> isActive timed = Some True \<and> expiresAt timed = Some 100
   \<and> get_connect ''K1'' 200 sample_db = (Expired, save 0 (timed\<lparr>isActive := Some False\<rparr>) sample_db)
   \<and> fst (get_connect ''K1'' 300
        (run [Validate ''K1'' 210, Tick 220] (snd (get_connect ''K1'' 200 sample_db))))
      = NotFound"
proof -
  have u: "unique_keys sample_db"
    by (simp add: unique_keys_def sample_db_def timed_def permanent_def)
  have l: "0 < length (subscriptions sample_db)"
    by (simp add: sample_db_def)
  have r: "subscriptions sample_db ! 0 = timed"
    by (simp add: sample_db_def)
  have a: "isActive (subscriptions sample_db ! 0) = Some True"
    and e: "expiresAt (subscriptions sample_db ! 0) = Some 100"
    and k: "key timed = ''K1''"
    by (simp_all add: r timed_def)
  have "(100::int) < 200" by simp
  note t = expired_validation_persists_deactivation [OF u l a e this]
  from t have first: "get_connect (key (subscriptions sample_db ! 0)) 200 sample_db
      = (Expired, save 0 ((subscriptions sample_db ! 0)\<lparr>isActive := Some False\<rparr>) sample_db)"
    by blast
  from t have later: "fst (get_connect (key (subscriptions sample_db ! 0)) 300
        (run [Validate ''K1'' 210, Tick 220]
          (snd (get_connect (key (subscriptions sample_db ! 0)) 200 sample_db))))
      = NotFound"
    by blast
  from first later u a e show ?thesis
    by (simp only: r k)
qed

text \<open>
  C5, amended. A validation call writes to the database at most once, and only to the
  record it read. When it answers Expired it makes exactly one write: the record is
  stored with \<open>isActive = false\<close>, which differs from what was stored. When it
  answers Found the record is stored with \<open>lastChecked = now\<close>: by exactly one
  write if the stored \<open>lastChecked\<close> was another instant, and by no write at all
  if it was \<open>now\<close> already, since then \<open>save\<close> has nothing to send. A call
  that answers NotFound changes nothing. No other record is touched.
\<close>

theorem validation_writes_at_most_once:
  "journal (snd (get_connect k now d))
     = journal d @ writes_between d (snd (get_connect k now d))
   \<and> length (writes_between d (snd (get_connect k now d))) \<le> 1
   \<and> (case fst (get_connect k now d) of
         Expired \<Rightarrow>
           \<exists>i<length (subscriptions d).
             subscriptions (snd (get_connect k now d))
               = (subscriptions d)[i := (subscriptions d ! i)\<lparr>isActive := Some False\<rparr>]
             \<and> subscriptions (snd (get_connect k now d)) ! i \<noteq> subscriptions d ! i
             \<and> writes_between d (snd (get_connect k now d))
               = [SaveDoc i ((subscriptions d ! i)\<lparr>isActive := Some False\<rparr>)]
       | Found r \<Rightarrow>
           \<exists>i<length (subscriptions d).
             r = (subscriptions d ! i)\<lparr>lastChecked := Some now\<rparr>
             \<and> subscriptions (snd (get_connect k now d)) = (subscriptions d)[i := r]
             \<and> writes_between d (snd (get_connect k now d))
               = (if lastChecked (subscriptions d ! i) = Some now then [] else [SaveDoc i r])
       | _ \<Rightarrow> snd (get_connect k now d) = d)"
proof (cases "findOne (\<lambda>s. key s = k \<and> isActive s = Some True) (subscriptions d)")
  case None
  then show ?thesis
    by (simp add: get_connect_cases writes_between_def)
next
  case (Some i)
  let ?r = "subscriptions d ! i"
  from findOne_SomeD [OF Some] have i: "i < length (subscriptions d)"
    and act: "isActive ?r = Some True"
    by simp_all
  show ?thesis
  proof (cases "isExpired now ?r")
    case True
    have ne: "?r\<lparr>isActive := Some False\<rparr> \<noteq> ?r"
    proof
      assume "?r\<lparr>isActive := Some False\<rparr> = ?r"
      then have "isActive (?r\<lparr>isActive := Some False\<rparr>) = isActive ?r"
        by (rule arg_cong)
      with act show False by simp
    qed
    have res: "get_connect k now d = (Expired, save i (?r\<lparr>isActive := Some False\<rparr>) d)"
      using Some True by (simp add: get_connect_cases)
    have j: "journal (save i (?r\<lparr>isActive := Some False\<rparr>) d)
        = journal d @ [SaveDoc i (?r\<lparr>isActive := Some False\<rparr>)]"
      using ne by (simp add: journal_save)
    have "\<exists>j<length (subscriptions d).
        (subscriptions d)[i := ?r\<lparr>isActive := Some False\<rparr>]
          = (subscriptions d)[j := (subscriptions d ! j)\<lparr>isActive := Some False\<rparr>]
        \<and> (subscriptions d)[i := ?r\<lparr>isActive := Some False\<rparr>] ! j \<noteq> subscriptions d ! j
        \<and> [SaveDoc i (?r\<lparr>isActive := Some False\<rparr>)]
          = [SaveDoc j ((subscriptions d ! j)\<lparr>isActive := Some False\<rparr>)]"
      using i ne by (intro exI [of _ i]) simp
    with i ne show ?thesis
      by (simp add: res j writes_between_def)
  next
    case False
    let ?t = "?r\<lparr>lastChecked := Some now\<rparr>"
    have eq: "?t = ?r \<longleftrightarrow> lastChecked ?r = Some now"
    proof
      assume "?t = ?r"
      then have "lastChecked ?t = lastChecked ?r"
        by (rule arg_cong)
      then show "lastChecked ?r = Some now" by simp
    next
      assume "lastChecked ?r = Some now"
      then show "?t = ?r" by simp
    qed
    have res: "get_connect k now d = (Found ?t, save i ?t d)"
      using Some False by (simp add: get_connect_cases)
    have j: "journal (save i ?t d)
        = journal d @ (if lastChecked ?r = Some now then [] else [SaveDoc i ?t])"
      by (simp add: journal_save eq)
    have "\<exists>j<length (subscriptions d).
        ?t = (subscriptions d ! j)\<lparr>lastChecked := Some now\<rparr>
        \<and> (subscriptions d)[i := ?t] = (subscriptions d)[j := ?t]
        \<and> (if lastChecked ?r = Some now then [] else [SaveDoc i ?t])
          = (if lastChecked (subscriptions d ! j) = Some now then [] else [SaveDoc j ?t])"
      using i by (intro exI [of _ i]) simp
    then show ?thesis
      by (simp add: res j writes_between_def)
  qed
qed

theorem validation_writes_at_most_once_witness:
  "get_connect ''K1'' 200 sample_db
     = (Expired,
        \<lparr>subscriptions = [timed\<lparr>isActive := Some False\<rparr>, permanent],
         journal = [SaveDoc 0 (timed\<lparr>isActive := Some False\<rparr>)]\<rparr>)
   \<and> get_connect ''K2'' 200 sample_db
     = (Found (permanent\<lparr>lastChecked := Some 200\<rparr>),
        \<lparr>subscriptions = [timed, permanent\<lparr>lastChecked := Some 200\<rparr>],
         journal = [SaveDoc 1 (permanent\<lparr>lastChecked := Some 200\<rparr>)]\<rparr>)
   \<and> length (writes_between sample_db (snd (get_connect ''K1'' 200 sample_db))) \<le> 1
   \<and> length (writes_between sample_db (snd (get_connect ''K2'' 200 sample_db))) \<le> 1"
proof -
  have e: "get_connect ''K1'' 200 sample_db
     = (Expired,
        \<lparr>subscriptions = [timed\<lparr>isActive := Some False\<rparr>, permanent],
         journal = [SaveDoc 0 (timed\<lparr>isActive := Some False\<rparr>)]\<rparr>)"
    by (simp add: get_connect_cases save_def sample_db_def timed_def permanent_def isExpired_def)
  have f: "get_connect ''K2'' 200 sample_db
     = (Found (permanent\<lparr>lastChecked := Some 200\<rparr>),
        \<lparr>subscriptions = [timed, permanent\<lparr>lastChecked := Some 200\<rparr>],
         journal = [SaveDoc 1 (permanent\<lparr>lastChecked := Some 200\<rparr>)]\<rparr>)"
    by (simp add: get_connect_cases save_def sample_db_def timed_def permanent_def isExpired_def)
  from validation_writes_at_most_once [of "''K1''" 200 sample_db]
  have "length (writes_between sample_db (snd (get_connect ''K1'' 200 sample_db))) \<le> 1"
    by blast
  moreover from validation_writes_at_most_once [of "''K2''" 200 sample_db]
  have "length (writes_between sample_db (snd (get_connect ''K2'' 200 sample_db))) \<le> 1"
    by blast
  ultimately show ?thesis using e f by blast
qed

text \<open>
  C5 as stated fails: the record \<open>K2\<close> was last stamped at time 0; its validation
  at time 0 answers Found and writes nothing, the database is as it was.
\<close>

theorem validation_without_write_counterexample:
  "lastChecked permanent = Some 0
   \<and> get_connect ''K2'' 0 sample_db = (Found permanent, sample_db)
   \<and> writes_between sample_db (snd (get_connect ''K2'' 0 sample_db)) = []"
  by (simp add: get_connect_cases save_def writes_between_def sample_db_def timed_def
      permanent_def isExpired_def)

text \<open>
  C6. A stored record whose \<open>expiresAt\<close> is absent keeps its \<open>isActive\<close> value,
  whatever that value is, through every sequence of validation reads (of any keys),
  timer ticks and cleanup requests, at any times: no record is removed and the record
  still has no \<open>expiresAt\<close>.
\<close>

theorem permanent_key_never_expires:
  assumes "i < length (subscriptions d)" and "expiresAt (subscriptions d ! i) = None"
  shows
    "length (subscriptions (run evs d)) = length (subscriptions d)
     \<and> isActive (subscriptions (run evs d) ! i) = isActive (subscriptions d ! i)
     \<and> expiresAt (subscriptions (run evs d) ! i) = None
     \<and> key (subscriptions (run evs d) ! i) = key (subscriptions d ! i)"
proof -
  have all: "list_all2 drift (subscriptions d) (subscriptions (run evs d))"
    by (rule run_drift)
  then have len: "length (subscriptions (run evs d)) = length (subscriptions d)"
    by (simp add: list_all2_lengthD)
  from all assms(1) have dr: "drift (subscriptions d ! i) (subscriptions (run evs d) ! i)"
    by (simp add: list_all2_nthD)
  from dr assms(2) have "isActive (subscriptions (run evs d) ! i) = isActive (subscriptions d ! i)"
    by (auto simp: drift_def)
  with len drift_expiresAt [OF dr] drift_key [OF dr] assms(2) show ?thesis
    by simp
qed

theorem permanent_key_never_expires_witness:
  "1 < length (subscriptions sample_db) \<and> expiresAt (subscriptions sample_db ! 1) = None
   \<and> isActive (subscriptions (run [Tick 200, Validate ''K2'' 300, Cleanup 400, Validate ''K1'' 500]
        sample_db) ! 1) = Some True"
proof -
  have l: "1 < length (subscriptions sample_db)"
    by (simp add: sample_db_def)
  have e: "expiresAt (subscriptions sample_db ! 1) = None"
    and a: "isActive (subscriptions sample_db ! 1) = Some True"
    by (simp_all add: sample_db_def permanent_def timed_def)
  from permanent_key_never_expires [OF l e,
      of "[Tick 200, Validate ''K2'' 300, Cleanup 400, Validate ''K1'' 500]"] l e a
  show ?thesis by simp
qed


section \<open>Issue\<close>

lemma roundHalfEven_of_int: "roundHalfEven (of_int w) = w"
  by (simp add: roundHalfEven_def)

text \<open>Whole numbers below \<open>2^53\<close> are doubles.\<close>

lemma toDouble_of_int:
  assumes "1 \<le> w" and "w < 2 ^ 53"
  shows "toDouble (of_int w) = of_int w"
proof -
  let ?e = "bitlen w - 1"
  from assms(1) have pos: "0 < w" by simp
  from bitlen_bounds [OF pos] have lo: "2 ^ nat ?e \<le> w"
    by simp
  have e52: "?e \<le> 52"
  proof (rule ccontr)
    assume "\<not> ?e \<le> 52"
    then have "53 \<le> nat ?e" by simp
    then have "(2::int) ^ 53 \<le> 2 ^ nat ?e"
      by (intro power_increasing) simp_all
    with lo assms(2) show False by simp
  qed
  have b: "binade (of_int w) = ?e"
    using assms(1) by (simp add: binade_def)
  define n where "n = nat (52 - ?e)"
  have ulp: "pow2 (?e - 52) = 1 / 2 ^ n"
    using e52 by (auto simp: pow2_def n_def)
  have q: "of_int w / (1 / 2 ^ n) = (of_int (w * 2 ^ n) :: rat)"
    by simp
  from pos have nz: "(of_int w :: rat) \<noteq> 0" by simp
  show ?thesis
    unfolding toDouble_def Let_def b ulp q roundHalfEven_of_int using nz by simp
qed

lemma setDate_fixed_offset:
  "\<forall>t. offsetAtLocal z t = offsetAtUTC z now \<Longrightarrow>
   setDate z day now date = now + (toIntegerOrInfinity date - day) * msPerDay"
  by (simp add: setDate_def Let_def)

lemma calculate_expiration_exact_sum:
  assumes "\<forall>t. offsetAtLocal z t = offsetAtUTC z now" and "1 \<le> day" and "0 < n"
    and "double_add (of_int day) n = of_int day + n"
  shows "calculate_expiration z day now (Some n) = Some (now + \<lfloor>n\<rfloor> * msPerDay)"
proof -
  from assms(2,3) have "toIntegerOrInfinity (of_int day + n) = day + \<lfloor>n\<rfloor>"
    by (simp add: toIntegerOrInfinity_def)
  with assms(3,4) show ?thesis
    by (simp add: calculate_expiration_def setDate_fixed_offset [OF assms(1)])
qed

lemma calculate_expiration_whole:
  assumes "\<forall>t. offsetAtLocal z t = offsetAtUTC z now" and "1 \<le> day" and "0 < m"
    and "day + m < 2 ^ 53"
  shows "calculate_expiration z day now (Some (of_int m)) = Some (now + m * msPerDay)"
proof -
  from assms(2-4) have "toDouble (of_int (day + m)) = of_int (day + m)"
    by (intro toDouble_of_int) simp_all
  then have "double_add (of_int day) (of_int m) = of_int day + of_int m"
    by (simp add: double_add_def)
  from calculate_expiration_exact_sum [OF assms(1,2) _ this] assms(3) show ?thesis
    by simp
qed

lemma calculate_expiration_none:
  "durationDays = None \<or> (\<exists>n. durationDays = Some n \<and> n \<le> 0)
   \<Longrightarrow> calculate_expiration z day now durationDays = None"
  by (auto simp: calculate_expiration_def)

lemma post_subscriptions_accepted:
  assumes "body_userId b = Some u" and "u \<noteq> 0"
    and "body_subscriptionType b = Some t" and "t \<noteq> []"
    and "body_key b = Some k" and "k \<noteq> []"
  shows "post_subscriptions z day now b d =
     (let subscription =
        new_subscription now k u (body_username b) (body_firstName b) (body_lastName b) t
          (calculate_expiration z day now (body_durationDays b))
      in if \<not> storable_expiration z day now b then (InternalError, d)
         else if k \<in> set (map key (subscriptions d)) then (Conflict, d)
         else (Created subscription, insertDoc subscription d))"
  using assms
  by (simp add: post_subscriptions_def truthy_number_def truthy_string_def
      storable_expiration_def Let_def split: option.splits)

lemma post_subscriptions_rejected:
  "\<not> truthy_number (body_userId b) \<or> \<not> truthy_string (body_subscriptionType b)
     \<or> \<not> truthy_string (body_key b)
   \<Longrightarrow> post_subscriptions z day now b d = (MissingFields, d)"
  by (auto simp: post_subscriptions_def)

text \<open>
  C10. A create request whose \<open>userId\<close> is the number 0, or whose \<open>key\<close> or
  \<open>subscriptionType\<close> is the empty string, is answered with the
  missing-required-fields error (HTTP 400) and changes nothing: no record is created and
  nothing is written.
\<close>

theorem falsy_required_field_is_missing:
  assumes "body_userId b = Some 0 \<or> body_key b = Some [] \<or> body_subscriptionType b = Some []"
  shows "post_subscriptions z day now b d = (MissingFields, d) \<and> status MissingFields = 400"
proof -
  from assms
  have "\<not> truthy_number (body_userId b) \<or> \<not> truthy_string (body_subscriptionType b)
      \<or> \<not> truthy_string (body_key b)"
    by (auto simp: truthy_number_def truthy_string_def)
  then show ?thesis
    by (simp add: post_subscriptions_rejected)
qed

theorem falsy_required_field_is_missing_witness:
  "body_userId (sample_body\<lparr>body_userId := Some 0\<rparr>) = Some 0
   \<and> post_subscriptions utc 1 1000 (sample_body\<lparr>body_userId := Some 0\<rparr>) sample_db
       = (MissingFields, sample_db)
   \<and> post_subscriptions utc 1 1000 (sample_body\<lparr>body_key := Some []\<rparr>) sample_db
       = (MissingFields, sample_db)
   \<and> post_subscriptions utc 1 1000 (sample_body\<lparr>body_subscriptionType := Some []\<rparr>) sample_db
       = (MissingFields, sample_db)"
  using falsy_required_field_is_missing [of "sample_body\<lparr>body_userId := Some 0\<rparr>" utc 1 1000 sample_db]
    falsy_required_field_is_missing [of "sample_body\<lparr>body_key := Some []\<rparr>" utc 1 1000 sample_db]
    falsy_required_field_is_missing
      [of "sample_body\<lparr>body_subscriptionType := Some []\<rparr>" utc 1 1000 sample_db]
  by simp

text \<open>
  C8. When a record with key \<open>K\<close> is stored, a create request for the key \<open>K\<close> never
  changes the state (neither the collection nor the journal), and a request that
  passes the handler's own checks (required fields present, an expiry date that can
  be stored) is answered with Conflict (HTTP 409).
\<close>

theorem duplicate_key_is_conflict:
  assumes "k \<in> set (map key (subscriptions d))" and "body_key b = Some k"
  shows
    "snd (post_subscriptions z day now b d) = d
     \<and> (truthy_number (body_userId b) \<and> truthy_string (body_subscriptionType b)
          \<and> truthy_string (body_key b) \<and> storable_expiration z day now b
        \<longrightarrow> post_subscriptions z day now b d = (Conflict, d))
     \<and> status Conflict = 409"
proof (cases "truthy_number (body_userId b) \<and> truthy_string (body_subscriptionType b)
    \<and> truthy_string (body_key b)")
  case False
  then show ?thesis
    by (auto simp: post_subscriptions_rejected)
next
  case True
  with assms(2) obtain u t where "body_userId b = Some u" "u \<noteq> 0"
    "body_subscriptionType b = Some t" "t \<noteq> []" "k \<noteq> []"
    by (auto simp: truthy_number_def truthy_string_def split: option.splits)
  from post_subscriptions_accepted [OF this(1-4) assms(2) this(5)] assms(1) show ?thesis
    by (simp add: Let_def)
qed

theorem duplicate_key_is_conflict_witness:
  "''K1'' \<in> set (map key (subscriptions sample_db))
   \<and> post_subscriptions utc 1 1000 (sample_body\<lparr>body_key := Some ''K1''\<rparr>) sample_db
       = (Conflict, sample_db)"
proof -
  have m: "''K1'' \<in> set (map key (subscriptions sample_db))"
    by (simp add: sample_db_def timed_def)
  have k: "body_key (sample_body\<lparr>body_key := Some ''K1''\<rparr>) = Some ''K1''"
    by simp
  have "calculate_expiration utc 1 1000 (Some (of_int 30)) = Some (1000 + 30 * msPerDay)"
    by (rule calculate_expiration_whole) (simp_all add: utc_def)
  then have thirty: "calculate_expiration utc 1 1000 (Some 30) = Some (1000 + 30 * msPerDay)"
    by simp
  have ok: "truthy_number (body_userId (sample_body\<lparr>body_key := Some ''K1''\<rparr>))
      \<and> truthy_string (body_subscriptionType (sample_body\<lparr>body_key := Some ''K1''\<rparr>))
      \<and> truthy_string (body_key (sample_body\<lparr>body_key := Some ''K1''\<rparr>))
      \<and> storable_expiration utc 1 1000 (sample_body\<lparr>body_key := Some ''K1''\<rparr>)"
    by (simp add: sample_body_def truthy_number_def truthy_string_def storable_expiration_def
        thirty validDate_def msPerDay_def maxTime_def)
  from duplicate_key_is_conflict [OF m k, of utc 1 1000] ok m show ?thesis
    by blast
qed


lemma findOne_append_last:
  "\<forall>x\<in>set xs. \<not> p x \<Longrightarrow> p y \<Longrightarrow> findOne p (xs @ [y]) = Some (length xs)"
  by (induction xs) auto

lemma subscriptions_insertDoc [simp]: "subscriptions (insertDoc doc d) = subscriptions d @ [doc]"
  by (simp add: insertDoc_def)

lemma permanent_key_found:
  assumes "k \<notin> set (map key (subscriptions d))"
    and "key r = k" and "isActive r = Some True" and "expiresAt r = None"
  shows "fst (get_connect k now' (insertDoc r d)) = Found (r\<lparr>lastChecked := Some now'\<rparr>)"
proof -
  from assms(1) have "\<forall>x\<in>set (subscriptions d). \<not> (key x = k \<and> isActive x = Some True)"
    by auto
  with assms(2,3)
  have "findOne (\<lambda>s. key s = k \<and> isActive s = Some True) (subscriptions d @ [r])
      = Some (length (subscriptions d))"
    by (intro findOne_append_last) auto
  with assms(4) show ?thesis
    by (simp add: get_connect_cases isExpired_def)
qed

text \<open>
  C7, amended. For a create request that passes the required-field check, for a key
  that is not stored yet, on a day of the month \<open>day \<ge> 1\<close>, on a server whose
  offset from UTC does not change: the record is created (HTTP 201) with the computed
  \<open>expiresAt\<close> when that is a valid Date, and the request fails with 500 otherwise.
  If \<open>durationDays\<close> is a positive whole number \<open>m\<close> (with \<open>day + m\<close> below
  \<open>2^53\<close>), \<open>expiresAt\<close> is \<open>now\<close> plus \<open>m\<close> days. If it is positive with
  a fractional part, whole days only are added: the days of the truncated double sum
  \<open>getDate() + durationDays\<close>, less \<open>getDate()\<close>; whenever that sum is exact,
  this is \<open>durationDays\<close> rounded down. If \<open>durationDays\<close> is absent, zero or
  negative, the record is created without \<open>expiresAt\<close>, and a validation of its key
  at any time answers Found.
\<close>

theorem issued_expiration_is_whole_days:
  assumes "body_userId b = Some u" and "u \<noteq> 0"
    and "body_subscriptionType b = Some t" and "t \<noteq> []"
    and "body_key b = Some k" and "k \<noteq> []"
    and "k \<notin> set (map key (subscriptions d))"
    and "1 \<le> day"
    and "\<forall>t. offsetAtLocal z t = offsetAtUTC z now"
  shows
    "(let expires = calculate_expiration z day now (body_durationDays b);
          r = new_subscription now k u (body_username b) (body_firstName b) (body_lastName b) t
                expires
      in post_subscriptions z day now b d =
           (if (case expires of None \<Rightarrow> True | Some e \<Rightarrow> validDate e)
            then (Created r, insertDoc r d) else (InternalError, d))
         \<and> status (Created r) = 201
         \<and> (\<forall>m. body_durationDays b = Some (of_int m) \<and> 0 < m \<and> day + m < 2 ^ 53
              \<longrightarrow> expires = Some (now + m * msPerDay))
         \<and> (\<forall>n. body_durationDays b = Some n \<and> 0 < n
                \<and> double_add (of_int day) n = of_int day + n
              \<longrightarrow> expires = Some (now + \<lfloor>n\<rfloor> * msPerDay))
         \<and> (\<forall>n. body_durationDays b = Some n \<and> 0 < n
              \<longrightarrow> expires
                  = Some (now + (toIntegerOrInfinity (double_add (of_int day) n) - day) * msPerDay))
         \<and> (body_durationDays b = None \<or> (\<exists>n. body_durationDays b = Some n \<and> n \<le> 0)
              \<longrightarrow> expires = None)
         \<and> (expires = None \<longrightarrow>
              (\<forall>now'. fst (get_connect k now' (snd (post_subscriptions z day now b d)))
                 = Found (r\<lparr>lastChecked := Some now'\<rparr>))))"
proof -
  define expires where "expires = calculate_expiration z day now (body_durationDays b)"
  define r where "r =
    new_subscription now k u (body_username b) (body_firstName b) (body_lastName b) t expires"
  have st: "storable_expiration z day now b
      \<longleftrightarrow> (case expires of None \<Rightarrow> True | Some e \<Rightarrow> validDate e)"
    by (simp add: storable_expiration_def expires_def)
  from post_subscriptions_accepted [OF assms(1-6), of z day now d] assms(7)
  have post: "post_subscriptions z day now b d =
      (if (case expires of None \<Rightarrow> True | Some e \<Rightarrow> validDate e)
       then (Created r, insertDoc r d) else (InternalError, d))"
    by (simp add: st r_def expires_def Let_def)
  have whole: "expires = Some (now + m * msPerDay)"
    if "body_durationDays b = Some (of_int m) \<and> 0 < m \<and> day + m < 2 ^ 53" for m
    using that calculate_expiration_whole [OF assms(9,8), of m] by (simp add: expires_def)
  have exact: "expires = Some (now + \<lfloor>n\<rfloor> * msPerDay)"
    if "body_durationDays b = Some n \<and> 0 < n \<and> double_add (of_int day) n = of_int day + n"
    for n
    using that calculate_expiration_exact_sum [OF assms(9,8), of n] by (simp add: expires_def)
  have gen: "expires
      = Some (now + (toIntegerOrInfinity (double_add (of_int day) n) - day) * msPerDay)"
    if "body_durationDays b = Some n \<and> 0 < n" for n
    using that
    by (simp add: expires_def calculate_expiration_def setDate_fixed_offset [OF assms(9)])
  have none: "expires = None"
    if "body_durationDays b = None \<or> (\<exists>n. body_durationDays b = Some n \<and> n \<le> 0)"
    using that unfolding expires_def by (rule calculate_expiration_none)
  have perm: "fst (get_connect k now' (snd (post_subscriptions z day now b d)))
      = Found (r\<lparr>lastChecked := Some now'\<rparr>)" if "expires = None" for now'
  proof -
    from that have p: "post_subscriptions z day now b d = (Created r, insertDoc r d)"
      by (simp add: post)
    have "key r = k" "isActive r = Some True" "expiresAt r = None"
      using that by (simp_all add: r_def new_subscription_def)
    from permanent_key_found [OF assms(7) this] show ?thesis
      by (simp add: p)
  qed
  have "post_subscriptions z day now b d =
       (if (case expires of None \<Rightarrow> True | Some e \<Rightarrow> validDate e)
        then (Created r, insertDoc r d) else (InternalError, d))
     \<and> status (Created r) = 201
     \<and> (\<forall>m. body_durationDays b = Some (of_int m) \<and> 0 < m \<and> day + m < 2 ^ 53
          \<longrightarrow> expires = Some (now + m * msPerDay))
     \<and> (\<forall>n. body_durationDays b = Some n \<and> 0 < n
            \<and> double_add (of_int day) n = of_int day + n
          \<longrightarrow> expires = Some (now + \<lfloor>n\<rfloor> * msPerDay))
     \<and> (\<forall>n. body_durationDays b = Some n \<and> 0 < n
          \<longrightarrow> expires
              = Some (now + (toIntegerOrInfinity (double_add (of_int day) n) - day) * msPerDay))
     \<and> (body_durationDays b = None \<or> (\<exists>n. body_durationDays b = Some n \<and> n \<le> 0)
          \<longrightarrow> expires = None)
     \<and> (expires = None \<longrightarrow>
          (\<forall>now'. fst (get_connect k now' (snd (post_subscriptions z day now b d)))
             = Found (r\<lparr>lastChecked := Some now'\<rparr>)))"
    using post whole exact gen none perm by (intro conjI allI impI) simp_all
  then show ?thesis
    unfolding Let_def expires_def [symmetric] r_def [symmetric] .
qed

theorem issued_expiration_is_whole_days_witness:
  "(\<forall>t. offsetAtLocal utc t = offsetAtUTC utc 1000)
   \<and> post_subscriptions utc 1 1000 sample_body sample_db
     = (Created (new_subscription 1000 ''K3'' 42 None None None ''pro'' (Some (1000 + 30 * msPerDay))),
        insertDoc (new_subscription 1000 ''K3'' 42 None None None ''pro'' (Some (1000 + 30 * msPerDay)))
          sample_db)
   \<and> post_subscriptions utc 1 1000 (sample_body\<lparr>body_durationDays := Some 0\<rparr>) sample_db
     = (Created (new_subscription 1000 ''K3'' 42 None None None ''pro'' None),
        insertDoc (new_subscription 1000 ''K3'' 42 None None None ''pro'' None) sample_db)
   \<and> fst (get_connect ''K3'' 1000
        (snd (post_subscriptions utc 1 1000 (sample_body\<lparr>body_durationDays := Some 0\<rparr>) sample_db)))
     = Found ((new_subscription 1000 ''K3'' 42 None None None ''pro'' None)
          \<lparr>lastChecked := Some 1000\<rparr>)"
proof -
  have fresh: "''K3'' \<notin> set (map key (subscriptions sample_db))"
    by (simp add: sample_db_def timed_def permanent_def)
  have v: "validDate (1000 + 30 * msPerDay)"
    by (simp add: validDate_def msPerDay_def maxTime_def)
  have one: "(1::int) \<le> 1" by simp
  have zone: "\<forall>t. offsetAtLocal utc t = offsetAtUTC utc 1000"
    by (simp add: utc_def)
  have un: "body_username sample_body = None" "body_firstName sample_body = None"
    "body_lastName sample_body = None"
    by (simp_all add: sample_body_def)
  have "body_userId sample_body = Some 42" "(42::rat) \<noteq> 0"
    "body_subscriptionType sample_body = Some ''pro''" "''pro'' \<noteq> []"
    "body_key sample_body = Some ''K3''" "''K3'' \<noteq> []"
    by (simp_all add: sample_body_def)
  note a = issued_expiration_is_whole_days [OF this fresh one zone, unfolded Let_def]
  have d30: "body_durationDays sample_body = Some (of_int 30) \<and> (0::int) < 30
      \<and> (1::int) + 30 < 2 ^ 53"
    by (simp add: sample_body_def)
  from a d30 have e30: "calculate_expiration utc 1 1000 (body_durationDays sample_body)
      = Some (1000 + 30 * msPerDay)"
    by blast
  from a have "post_subscriptions utc 1 1000 sample_body sample_db =
      (if (case calculate_expiration utc 1 1000 (body_durationDays sample_body) of
             None \<Rightarrow> True | Some e \<Rightarrow> validDate e)
       then (Created (new_subscription 1000 ''K3'' 42 (body_username sample_body)
                (body_firstName sample_body) (body_lastName sample_body) ''pro''
                (calculate_expiration utc 1 1000 (body_durationDays sample_body))),
             insertDoc (new_subscription 1000 ''K3'' 42 (body_username sample_body)
                (body_firstName sample_body) (body_lastName sample_body) ''pro''
                (calculate_expiration utc 1 1000 (body_durationDays sample_body))) sample_db)
       else (InternalError, sample_db))"
    by blast
  with v have first: "post_subscriptions utc 1 1000 sample_body sample_db
     = (Created (new_subscription 1000 ''K3'' 42 None None None ''pro'' (Some (1000 + 30 * msPerDay))),
        insertDoc (new_subscription 1000 ''K3'' 42 None None None ''pro'' (Some (1000 + 30 * msPerDay)))
          sample_db)"
    by (simp add: e30 un)
  let ?b0 = "sample_body\<lparr>body_durationDays := Some 0\<rparr>"
  have "body_userId ?b0 = Some 42" "(42::rat) \<noteq> 0"
    "body_subscriptionType ?b0 = Some ''pro''" "''pro'' \<noteq> []"
    "body_key ?b0 = Some ''K3''" "''K3'' \<noteq> []"
    by (simp_all add: sample_body_def)
  note z = issued_expiration_is_whole_days [OF this fresh one zone, unfolded Let_def]
  have un0: "body_username ?b0 = None" "body_firstName ?b0 = None" "body_lastName ?b0 = None"
    by (simp_all add: sample_body_def)
  have "body_durationDays ?b0 = None \<or> (\<exists>n. body_durationDays ?b0 = Some n \<and> n \<le> 0)"
    by simp
  with z have e0: "calculate_expiration utc 1 1000 (body_durationDays ?b0) = None"
    by blast
  note z0 = z [unfolded e0 un0]
  from z0 have second: "post_subscriptions utc 1 1000 ?b0 sample_db
     = (Created (new_subscription 1000 ''K3'' 42 None None None ''pro'' None),
        insertDoc (new_subscription 1000 ''K3'' 42 None None None ''pro'' None) sample_db)"
    by simp
  from z0 have "\<forall>now'. fst (get_connect ''K3'' now' (snd (post_subscriptions utc 1 1000 ?b0 sample_db)))
     = Found ((new_subscription 1000 ''K3'' 42 None None None ''pro'' None)
          \<lparr>lastChecked := Some now'\<rparr>)"
    by blast
  then have third: "fst (get_connect ''K3'' 1000 (snd (post_subscriptions utc 1 1000 ?b0 sample_db)))
     = Found ((new_subscription 1000 ''K3'' 42 None None None ''pro'' None)
          \<lparr>lastChecked := Some 1000\<rparr>)"
    by (rule spec)
  from zone first second third show ?thesis by blast
qed

text \<open>
  C7 as stated fails for a fractional duration: on a UTC server, with
  \<open>durationDays = 1/2\<close> the created record has \<open>expiresAt = now\<close>, not \<open>now\<close>
  plus half a day.
\<close>

theorem fractional_duration_counterexample:
  "body_durationDays (sample_body\<lparr>body_durationDays := Some (1 / 2)\<rparr>) = Some (1 / 2)
   \<and> fst (post_subscriptions utc 1 1000 (sample_body\<lparr>body_durationDays := Some (1 / 2)\<rparr>)
        sample_db)
     = Created (new_subscription 1000 ''K3'' 42 None None None ''pro'' (Some 1000))
   \<and> expiresAt (new_subscription 1000 ''K3'' 42 None None None ''pro'' (Some 1000))
     \<noteq> Some (1000 + msPerDay div 2)"
proof -
  have h: "double_add 1 (1 / 2) = 3 / 2"
    by code_simp
  have t: "toIntegerOrInfinity (3 / 2) = 1"
    by (simp add: toIntegerOrInfinity_def floor_eq_iff)
  have c: "calculate_expiration utc 1 1000 (Some (1 / 2)) = Some 1000"
    by (simp add: calculate_expiration_def setDate_def utc_def h t)
  have v: "validDate 1000"
    by (simp add: validDate_def maxTime_def)
  have fresh: "''K3'' \<notin> set (map key (subscriptions sample_db))"
    by (simp add: sample_db_def timed_def permanent_def)
  have "post_subscriptions utc 1 1000 (sample_body\<lparr>body_durationDays := Some (1 / 2)\<rparr>) sample_db
      = (Created (new_subscription 1000 ''K3'' 42 None None None ''pro'' (Some 1000)),
         insertDoc (new_subscription 1000 ''K3'' 42 None None None ''pro'' (Some 1000)) sample_db)"
    using fresh
    by (simp add: post_subscriptions_def truthy_number_def truthy_string_def sample_body_def
        c v Let_def)
  then show ?thesis
    by (simp add: new_subscription_def msPerDay_def)
qed

text \<open>
  The double sum can round up to the next whole number before \<open>setDate\<close>
  truncates it: on day 1, the duration \<open>1 - 2^-53\<close> (the double written
  \<^verbatim>\<open>0.9999999999999999\<close>) gives the sum 2, and the key expires one day after
  \<open>now\<close>.
\<close>

lemma double_add_rounds_up: "double_add 1 ((2 ^ 53 - 1) / 2 ^ 53) = 2"
  by code_simp

lemma expiration_after_rounding_up:
  "calculate_expiration utc 1 1000 (Some ((2 ^ 53 - 1) / 2 ^ 53)) = Some (1000 + msPerDay)"
proof -
  define x :: rat where "x = (2 ^ 53 - 1) / 2 ^ 53"
  have pos: "0 < x"
    by (simp add: x_def)
  have h: "double_add 1 x = 2"
    unfolding x_def by (rule double_add_rounds_up)
  from pos have "calculate_expiration utc 1 1000 (Some x) = Some (1000 + msPerDay)"
    by (simp add: calculate_expiration_def setDate_def utc_def h toIntegerOrInfinity_def)
  then show ?thesis
    unfolding x_def .
qed

section \<open>Update and toggle\<close>

lemma required_key:
  "(\<And>x. key (upd x) = key doc) \<Longrightarrow> key (fst (required c upd (doc, ok))) = key doc"
  by (cases c) simp_all

lemma optional_key:
  "(\<And>x. key (upd x) = key doc) \<Longrightarrow> key (fst (optional c upd (doc, ok))) = key doc"
  by (cases c) simp_all

lemma assign_key: "field \<noteq> ''key'' \<Longrightarrow> key (fst (assign C field v st)) = key (fst st)"
  by (cases st) (simp add: assign_def required_key optional_key Let_def)

lemma assign_unknown_field:
  "field \<notin> set declared_paths \<Longrightarrow> field \<notin> set undeclared_paths \<Longrightarrow> assign C field v st = st"
  by (simp add: assign_def declared_paths_def)

lemma assign_all_key:
  "''key'' \<notin> fst ` set updates \<Longrightarrow> key (fst (assign_all C updates st)) = key (fst st)"
proof (induction updates arbitrary: st)
  case Nil
  show ?case by simp
next
  case (Cons a updates)
  obtain field v where a: "a = (field, v)"
    by (cases a)
  with Cons.prems have "field \<noteq> ''key''" and "''key'' \<notin> fst ` set updates"
    by auto
  with Cons.IH [of "assign C field v st"] a show ?case
    by (simp add: assign_key)
qed

lemma map_key_update_same:
  "i < length xs \<Longrightarrow> key r = key (xs ! i) \<Longrightarrow> map key (xs[i := r]) = map key xs"
proof -
  assume i: "i < length xs" and k: "key r = key (xs ! i)"
  have "(map key xs)[i := map key xs ! i] = map key xs"
    by (rule list_update_id)
  with i k show ?thesis
    by (simp add: map_update)
qed

lemma put_subscription_cases:
  "put_subscription C k updates d =
     (case findOne (\<lambda>s. key s = k) (subscriptions d) of
        None \<Rightarrow> (NotFound, d)
      | Some i \<Rightarrow>
          if breaks_document C updates then (NoResponse, d)
          else if \<not> snd (assign_all C updates (subscriptions d ! i, True)) then (InternalError, d)
          else if key (fst (assign_all C updates (subscriptions d ! i, True)))
                  \<in> set (map key (take i (subscriptions d) @ drop (Suc i) (subscriptions d)))
          then (InternalError, d)
          else (Updated (fst (assign_all C updates (subscriptions d ! i, True))),
                save i (fst (assign_all C updates (subscriptions d ! i, True))) d))"
  by (simp add: put_subscription_def Let_def split_beta split: option.splits)

lemma declared_path_breaks_nothing:
  "field \<in> set declared_paths \<Longrightarrow> breaks_document C [(field, v)] = False"
  by (auto simp: breaks_document_def declared_paths_def undeclared_paths_def)

lemma no_coercion_breaks_nothing: "breaks_document no_coercion updates = False"
  by (simp add: breaks_document_def no_coercion_def list_ex_iff split_beta)

lemma put_subscription_keys:
  assumes "''key'' \<notin> fst ` set updates"
  shows "map key (subscriptions (snd (put_subscription C k updates d))) = map key (subscriptions d)"
proof (cases "findOne (\<lambda>s. key s = k) (subscriptions d)")
  case None
  then show ?thesis by (simp add: put_subscription_cases)
next
  case (Some i)
  from findOne_SomeD [OF Some] have i: "i < length (subscriptions d)"
    by simp
  have "key (fst (assign_all C updates (subscriptions d ! i, True))) = key (subscriptions d ! i)"
    using assign_all_key [OF assms] by simp
  with i Some show ?thesis
    by (simp add: put_subscription_cases map_key_update_same)
qed

lemma others_keys:
  assumes "distinct (map key xs)" and "i < length xs"
  shows "key (xs ! i) \<notin> set (map key (take i xs @ drop (Suc i) xs))"
proof -
  from assms(2) have "xs = take i xs @ xs ! i # drop (Suc i) xs"
    by (rule id_take_nth_drop)
  then have "map key xs = map key (take i xs) @ key (xs ! i) # map key (drop (Suc i) xs)"
    by (metis list.simps(9) map_append)
  with assms(1) have "distinct (map key (take i xs) @ key (xs ! i) # map key (drop (Suc i) xs))"
    by simp
  then show ?thesis by auto
qed

lemma put_key_string:
  assumes "findOne (\<lambda>s. key s = k) (subscriptions d) = Some i" and "k' \<noteq> []"
    and "k' \<notin> set (map key (take i (subscriptions d) @ drop (Suc i) (subscriptions d)))"
  shows "put_subscription C k [(''key'', JStr k')] d =
     (Updated ((subscriptions d ! i)\<lparr>key := k'\<rparr>), save i ((subscriptions d ! i)\<lparr>key := k'\<rparr>) d)"
  using assms
  by (simp add: put_subscription_cases assign_def castString_def declared_path_breaks_nothing
      declared_paths_def)

lemma post_keys_toggle_cases:
  "post_keys_toggle oid ks =
     (case findOne (\<lambda>k. k_id k = oid) ks of
        None \<Rightarrow> (ToggleError, ks)
      | Some j \<Rightarrow>
          (Toggled (\<not> k_isActive (ks ! j)), ks[j := (ks ! j)\<lparr>k_isActive := \<not> k_isActive (ks ! j)\<rparr>]))"
  by (simp add: post_keys_toggle_def Let_def split: option.splits)

lemma post_keys_toggle_keys: "map k_key (snd (post_keys_toggle oid ks)) = map k_key ks"
proof (cases "findOne (\<lambda>k. k_id k = oid) ks")
  case None
  then show ?thesis by (simp add: post_keys_toggle_cases)
next
  case (Some j)
  have "(map k_key ks)[j := map k_key ks ! j] = map k_key ks"
    by (rule list_update_id)
  moreover from findOne_SomeD [OF Some] have "j < length ks"
    by simp
  ultimately show ?thesis using Some
    by (simp add: post_keys_toggle_cases map_update)
qed

lemma get_connect_keys:
  "map key (subscriptions (snd (get_connect k now d))) = map key (subscriptions d)"
  using run_keys [of "[Validate k now]" d] by simp

lemma scheduled_cleanup_keys:
  "map key (subscriptions (scheduled_cleanup now d)) = map key (subscriptions d)"
  using run_keys [of "[Tick now]" d] by simp

text \<open>
  C2, amended. Validation, the hourly sweep, the cleanup request, the toggle of the
  admin console and every field update whose map has no entry \<open>key\<close> (freeze and
  unfreeze among them) leave the key of every stored record as it is. An update whose
  map names \<open>key\<close> does change the key: with a non-empty string that no other record
  has, the record is stored under the new key.
\<close>

theorem key_changes_only_by_update_naming_key:
  "map key (subscriptions (snd (get_connect k now d))) = map key (subscriptions d)
   \<and> map key (subscriptions (scheduled_cleanup now d)) = map key (subscriptions d)
   \<and> map key (subscriptions (snd (post_cleanup now d))) = map key (subscriptions d)
   \<and> (''key'' \<notin> fst ` set updates \<longrightarrow>
        map key (subscriptions (snd (put_subscription C k updates d))) = map key (subscriptions d))
   \<and> map k_key (snd (post_keys_toggle oid ks)) = map k_key ks
   \<and> (findOne (\<lambda>s. key s = k) (subscriptions d) = Some i \<and> k' \<noteq> []
        \<and> k' \<notin> set (map key (take i (subscriptions d) @ drop (Suc i) (subscriptions d)))
      \<longrightarrow> put_subscription C k [(''key'', JStr k')] d =
            (Updated ((subscriptions d ! i)\<lparr>key := k'\<rparr>),
             save i ((subscriptions d ! i)\<lparr>key := k'\<rparr>) d))"
  by (simp add: get_connect_keys scheduled_cleanup_keys snd_post_cleanup put_subscription_keys
      post_keys_toggle_keys put_key_string)

theorem key_changes_only_by_update_naming_key_witness:
  "''key'' \<notin> fst ` set [(''isFrozen'', JBool True), (''nickname'', JStr ''x'')]
   \<and> map key (subscriptions (snd (put_subscription no_coercion ''K1''
        [(''isFrozen'', JBool True), (''nickname'', JStr ''x'')] sample_db))) = [''K1'', ''K2'']
   \<and> map key (subscriptions (snd (get_connect ''K1'' 200 sample_db))) = [''K1'', ''K2'']"
proof -
  have n: "''key'' \<notin> fst ` set [(''isFrozen'', JBool True), (''nickname'', JStr ''x'')]"
    by simp
  have k: "map key (subscriptions sample_db) = [''K1'', ''K2'']"
    by (simp add: sample_db_def timed_def permanent_def)
  from key_changes_only_by_update_naming_key
    [of "''K1''" 200 sample_db "[(''isFrozen'', JBool True), (''nickname'', JStr ''x'')]" no_coercion]
    n k
  show ?thesis by simp
qed

text \<open>
  C2 as stated fails: an update with the field map \<open>{key: "K9"}\<close> on the record
  \<open>K1\<close> stores the record under the key \<open>K9\<close>.
\<close>

theorem update_rewrites_key_counterexample:
  "put_subscription no_coercion ''K1'' [(''key'', JStr ''K9'')] sample_db
     = (Updated (timed\<lparr>key := ''K9''\<rparr>), save 0 (timed\<lparr>key := ''K9''\<rparr>) sample_db)
   \<and> key (subscriptions sample_db ! 0) = ''K1''
   \<and> key (subscriptions (snd (put_subscription no_coercion ''K1'' [(''key'', JStr ''K9'')]
        sample_db)) ! 0) = ''K9''"
proof -
  have f: "findOne (\<lambda>s. key s = ''K1'') (subscriptions sample_db) = Some 0"
    by (simp add: sample_db_def timed_def)
  have r: "subscriptions sample_db ! 0 = timed"
    by (simp add: sample_db_def)
  have o: "''K9'' \<notin> set (map key (take 0 (subscriptions sample_db)
      @ drop (Suc 0) (subscriptions sample_db)))"
    by (simp add: sample_db_def timed_def permanent_def)
  have "''K9'' \<noteq> []" by simp
  from put_key_string [OF f this o, of no_coercion] show ?thesis
    by (simp add: r) (simp add: timed_def sample_db_def)
qed


section \<open>Expiration never deletes a subscription\<close>

lemma length_put_subscription:
  "length (subscriptions (snd (put_subscription C k updates d))) = length (subscriptions d)"
  by (simp add: put_subscription_cases split: option.splits)

lemma length_post_subscriptions:
  "length (subscriptions d) \<le> length (subscriptions (snd (post_subscriptions z day now b d)))"
  by (simp add: post_subscriptions_def Let_def split: option.splits)

lemma scheduled_key_cleanup_filter:
  "scheduled_key_cleanup now ks =
     filter (\<lambda>k. k_isPermanent k \<or> (case k_expiresAt k of None \<Rightarrow> True | Some e \<Rightarrow> now \<le> e)) ks"
proof -
  have "(\<not> expired_key_filter now k)
      = (k_isPermanent k \<or> (case k_expiresAt k of None \<Rightarrow> True | Some e \<Rightarrow> now \<le> e))" for k
    by (auto simp: expired_key_filter_def split: option.splits)
  then show ?thesis
    by (simp add: scheduled_key_cleanup_def deleteMany_def)
qed

text \<open>
  C1, amended. In the subscription API no automated expiration step removes a record:
  a validation read, a tick of the hourly timer and a cleanup request leave every
  stored record in its place, either unchanged, or with \<open>isActive\<close> set to false
  (when it was active and its \<open>expiresAt\<close> was earlier than \<open>now\<close>), or with
  \<open>lastChecked\<close> stamped by a successful validation; so after any sequence of such
  steps the collection holds the same keys in the same order. Creating and updating
  remove nothing either. The hourly timer of the admin console, however, deletes from
  its own collection every key with \<open>isPermanent = false\<close> and \<open>expiresAt\<close>
  earlier than \<open>now\<close>, and keeps the others.
\<close>

theorem expiration_deactivates_subscriptions_and_deletes_admin_keys:
  "list_all2 (expiry_step now) (subscriptions d) (subscriptions (snd (get_connect k now d)))
   \<and> list_all2 (expiry_step now) (subscriptions d) (subscriptions (scheduled_cleanup now d))
   \<and> list_all2 (expiry_step now) (subscriptions d) (subscriptions (snd (post_cleanup now d)))
   \<and> length (subscriptions (run evs d)) = length (subscriptions d)
   \<and> map key (subscriptions (run evs d)) = map key (subscriptions d)
   \<and> length (subscriptions (snd (put_subscription C k updates d))) = length (subscriptions d)
   \<and> length (subscriptions d) \<le> length (subscriptions (snd (post_subscriptions z day now b d)))
   \<and> scheduled_key_cleanup now ks =
       filter (\<lambda>k. k_isPermanent k \<or> (case k_expiresAt k of None \<Rightarrow> True | Some e \<Rightarrow> now \<le> e))
         ks"
proof -
  have "length (map key (subscriptions (run evs d))) = length (map key (subscriptions d))"
    by (simp only: run_keys)
  then have "length (subscriptions (run evs d)) = length (subscriptions d)"
    by simp
  then show ?thesis
    by (simp add: get_connect_expiry_step scheduled_cleanup_expiry_step snd_post_cleanup
        run_keys length_put_subscription length_post_subscriptions
        scheduled_key_cleanup_filter [symmetric])
qed

theorem expiration_deactivates_subscriptions_and_deletes_admin_keys_witness:
  "subscriptions (run [Tick 200, Validate ''K1'' 300, Cleanup 400] sample_db)
     = [timed\<lparr>isActive := Some False\<rparr>, permanent]
   \<and> length (subscriptions (run [Tick 200, Validate ''K1'' 300, Cleanup 400] sample_db))
     = length (subscriptions sample_db)
   \<and> scheduled_key_cleanup 50 [lapsed_key] = [lapsed_key]"
proof -
  have r: "subscriptions (run [Tick 200, Validate ''K1'' 300, Cleanup 400] sample_db)
      = [timed\<lparr>isActive := Some False\<rparr>, permanent]"
    by (simp add: snd_post_cleanup scheduled_cleanup_def get_connect_cases sample_db_def
        cleanup_filter_def timed_def permanent_def)
  have "(case k_expiresAt lapsed_key of None \<Rightarrow> True | Some e \<Rightarrow> (50::int) \<le> e)"
    by (simp add: lapsed_key_def)
  with expiration_deactivates_subscriptions_and_deletes_admin_keys
    [of 50 sample_db "''K1''" "[Tick 200, Validate ''K1'' 300, Cleanup 400]" no_coercion "[]" utc 1
      sample_body "[lapsed_key]"] r
  show ?thesis by simp
qed

text \<open>
  C1 as stated fails for the hourly timer of the admin console: its tick at time 200
  removes a stored key that is not permanent and expired at time 100.
\<close>

theorem admin_sweep_deletes_counterexample:
  "k_isPermanent lapsed_key = False \<and> k_expiresAt lapsed_key = Some 100
   \<and> scheduled_key_cleanup 200 [lapsed_key] = []"
  by (simp add: scheduled_key_cleanup_def deleteMany_def expired_key_filter_def lapsed_key_def)

section \<open>Reactivating an expired record\<close>

lemma put_isActive_true:
  assumes "unique_keys d" and "i < length (subscriptions d)"
  shows "put_subscription C (key (subscriptions d ! i)) [(''isActive'', JBool True)] d =
     (Updated ((subscriptions d ! i)\<lparr>isActive := Some True\<rparr>),
      save i ((subscriptions d ! i)\<lparr>isActive := Some True\<rparr>) d)"
proof -
  from assms
  have "findOne (\<lambda>s. key s = key (subscriptions d ! i) \<and> True) (subscriptions d) = Some i"
    unfolding unique_keys_def by (intro findOne_by_key) auto
  then have f: "findOne (\<lambda>s. key s = key (subscriptions d ! i)) (subscriptions d) = Some i"
    by simp
  from assms have "key (subscriptions d ! i)
      \<notin> set (map key (take i (subscriptions d) @ drop (Suc i) (subscriptions d)))"
    unfolding unique_keys_def by (rule others_keys)
  with f show ?thesis
    by (simp add: put_subscription_cases assign_def castBoolean_def declared_path_breaks_nothing
        declared_paths_def)
qed

lemma unique_keys_save:
  "unique_keys d \<Longrightarrow> i < length (subscriptions d) \<Longrightarrow> key r = key (subscriptions d ! i)
   \<Longrightarrow> unique_keys (save i r d)"
  by (simp add: unique_keys_def map_key_update_same)

text \<open>
  C9, amended. The toggle of the admin console flips \<open>isActive\<close> of the key it finds
  to its negation, whatever \<open>expiresAt\<close> is, and changes nothing else. In the
  subscription API a deactivated record is reactivated by an update with
  \<open>{isActive: true}\<close>, also without a look at \<open>expiresAt\<close>. But validation checks
  the expiry again: for a reactivated record whose \<open>expiresAt\<close> is earlier than
  \<open>now\<close> it answers Expired (HTTP 410) and stores the record inactive again; it
  answers Found only when \<open>expiresAt\<close> is not earlier than \<open>now\<close>.
\<close>

theorem toggle_flips_and_validation_rechecks_expiry:
  "(findOne (\<lambda>k. k_id k = oid) ks = Some j \<longrightarrow>
      post_keys_toggle oid ks
        = (Toggled (\<not> k_isActive (ks ! j)), ks[j := (ks ! j)\<lparr>k_isActive := \<not> k_isActive (ks ! j)\<rparr>]))
   \<and> (unique_keys d \<and> i < length (subscriptions d) \<and> expiresAt (subscriptions d ! i) = Some e \<longrightarrow>
        put_subscription C (key (subscriptions d ! i)) [(''isActive'', JBool True)] d
          = (Updated ((subscriptions d ! i)\<lparr>isActive := Some True\<rparr>),
             save i ((subscriptions d ! i)\<lparr>isActive := Some True\<rparr>) d)
        \<and> get_connect (key (subscriptions d ! i)) now
            (save i ((subscriptions d ! i)\<lparr>isActive := Some True\<rparr>) d)
          = (if e < now
             then (Expired,
                   save i ((subscriptions d ! i)\<lparr>isActive := Some False\<rparr>)
                     (save i ((subscriptions d ! i)\<lparr>isActive := Some True\<rparr>) d))
             else (Found ((subscriptions d ! i)\<lparr>isActive := Some True, lastChecked := Some now\<rparr>),
                   save i ((subscriptions d ! i)\<lparr>isActive := Some True, lastChecked := Some now\<rparr>)
                     (save i ((subscriptions d ! i)\<lparr>isActive := Some True\<rparr>) d))))"
proof -
  have toggle: "post_keys_toggle oid ks
      = (Toggled (\<not> k_isActive (ks ! j)), ks[j := (ks ! j)\<lparr>k_isActive := \<not> k_isActive (ks ! j)\<rparr>])"
    if "findOne (\<lambda>k. k_id k = oid) ks = Some j"
    using that by (simp add: post_keys_toggle_cases)
  have check: "get_connect (key (subscriptions d ! i)) now
        (save i ((subscriptions d ! i)\<lparr>isActive := Some True\<rparr>) d)
      = (if e < now
         then (Expired,
               save i ((subscriptions d ! i)\<lparr>isActive := Some False\<rparr>)
                 (save i ((subscriptions d ! i)\<lparr>isActive := Some True\<rparr>) d))
         else (Found ((subscriptions d ! i)\<lparr>isActive := Some True, lastChecked := Some now\<rparr>),
               save i ((subscriptions d ! i)\<lparr>isActive := Some True, lastChecked := Some now\<rparr>)
                 (save i ((subscriptions d ! i)\<lparr>isActive := Some True\<rparr>) d)))"
    if u: "unique_keys d" and i: "i < length (subscriptions d)"
      and e: "expiresAt (subscriptions d ! i) = Some e"
  proof -
    let ?r = "(subscriptions d ! i)\<lparr>isActive := Some True\<rparr>"
    let ?d' = "save i ?r d"
    from u i have u': "unique_keys ?d'"
      by (simp add: unique_keys_save)
    from i have i': "i < length (subscriptions ?d')" and r: "subscriptions ?d' ! i = ?r"
      by simp_all
    note g = get_connect_by_position [OF u' i', of now, unfolded r]
    from e have x: "isExpired now ?r \<longleftrightarrow> e < now"
      by (simp add: isExpired_def)
    from g show ?thesis
      by (simp add: x)
  qed
  from toggle put_isActive_true check show ?thesis
    by blast
qed

theorem toggle_flips_and_validation_rechecks_expiry_witness:
  "post_keys_toggle ''65a000000000000000000001'' [lapsed_key]
     = (Toggled True, [lapsed_key\<lparr>k_isActive := True\<rparr>])
   \<and> put_subscription no_coercion ''K1'' [(''isActive'', JBool True)] lapsed_db
     = (Updated timed, save 0 timed lapsed_db)
   \<and> get_connect ''K1'' 50 (save 0 timed lapsed_db)
     = (Found (timed\<lparr>lastChecked := Some 50\<rparr>),
        save 0 (timed\<lparr>lastChecked := Some 50\<rparr>) (save 0 timed lapsed_db))"
proof -
  have f: "findOne (\<lambda>k. k_id k = ''65a000000000000000000001'') [lapsed_key] = Some 0"
    by (simp add: lapsed_key_def)
  have u: "unique_keys lapsed_db"
    by (simp add: unique_keys_def lapsed_db_def timed_def permanent_def)
  have l: "0 < length (subscriptions lapsed_db)"
    by (simp add: lapsed_db_def)
  have e: "expiresAt (subscriptions lapsed_db ! 0) = Some 100"
    by (simp add: lapsed_db_def timed_def)
  have k: "key (subscriptions lapsed_db ! 0) = ''K1''"
    by (simp add: lapsed_db_def timed_def)
  have r: "(subscriptions lapsed_db ! 0)\<lparr>isActive := Some True\<rparr> = timed"
    by (simp add: lapsed_db_def timed_def)
  have a: "k_isActive lapsed_key = False"
    by (simp add: lapsed_key_def)
  from toggle_flips_and_validation_rechecks_expiry
    [of "''65a000000000000000000001''" "[lapsed_key]" 0 lapsed_db 0 100 no_coercion 50]
    f u l e
  show ?thesis
    by (simp add: k r a)
qed

text \<open>
  C9 as stated fails: the record \<open>K1\<close>, expired at time 100 and inactive, is
  reactivated; its validation at time 200 answers Expired, not Found, and stores it
  inactive again. (The toggle of the admin console does flip the flag of its own
  key document.)
\<close>

theorem reactivated_expired_key_counterexample:
  "post_keys_toggle ''65a000000000000000000001'' [lapsed_key]
     = (Toggled True, [lapsed_key\<lparr>k_isActive := True\<rparr>])
   \<and> fst (put_subscription no_coercion ''K1'' [(''isActive'', JBool True)] lapsed_db)
     = Updated timed
   \<and> expiresAt timed = Some 100
   \<and> fst (get_connect ''K1'' 200
        (snd (put_subscription no_coercion ''K1'' [(''isActive'', JBool True)] lapsed_db)))
     = Expired
   \<and> isActive (subscriptions (snd (get_connect ''K1'' 200
        (snd (put_subscription no_coercion ''K1'' [(''isActive'', JBool True)] lapsed_db)))) ! 0)
     = Some False"
proof -
  have t: "post_keys_toggle ''65a000000000000000000001'' [lapsed_key]
      = (Toggled True, [lapsed_key\<lparr>k_isActive := True\<rparr>])"
    by (simp add: post_keys_toggle_cases lapsed_key_def)
  have p: "put_subscription no_coercion ''K1'' [(''isActive'', JBool True)] lapsed_db
      = (Updated timed, save 0 timed lapsed_db)"
    by (simp add: put_subscription_cases assign_def castBoolean_def no_coercion_breaks_nothing
        lapsed_db_def timed_def
        permanent_def)
  have g: "get_connect ''K1'' 200 (save 0 timed lapsed_db)
      = (Expired, save 0 (timed\<lparr>isActive := Some False\<rparr>) (save 0 timed lapsed_db))"
    by (simp add: get_connect_cases isExpired_def lapsed_db_def timed_def permanent_def)
  have e: "expiresAt timed = Some 100"
    by (simp add: timed_def)
  from t p g e show ?thesis
    by (simp add: lapsed_db_def)
qed



section \<open>Unique keys are an invariant of the subscription API\<close>

lemma distinct_remove_nth: "distinct ys \<Longrightarrow> distinct (take i ys @ drop (Suc i) ys)"
  by (simp add: set_take_disj_set_drop_if_distinct)

lemma distinct_others:
  "distinct (map key xs) \<Longrightarrow> distinct (map key (take i xs @ drop (Suc i) xs))"
  using distinct_remove_nth [of "map key xs" i] by (simp add: take_map drop_map)

lemma unique_keys_get_connect: "unique_keys d \<Longrightarrow> unique_keys (snd (get_connect k now d))"
  by (simp add: unique_keys_def get_connect_keys)

lemma unique_keys_scheduled_cleanup: "unique_keys d \<Longrightarrow> unique_keys (scheduled_cleanup now d)"
  by (simp add: unique_keys_def scheduled_cleanup_keys)

lemma unique_keys_post_subscriptions:
  assumes "unique_keys d"
  shows "unique_keys (snd (post_subscriptions z day now b d))"
proof (cases "truthy_number (body_userId b) \<and> truthy_string (body_subscriptionType b)
    \<and> truthy_string (body_key b)")
  case False
  with assms show ?thesis
    by (auto simp: post_subscriptions_rejected)
next
  case True
  then obtain u t k where "body_userId b = Some u" "u \<noteq> 0"
    "body_subscriptionType b = Some t" "t \<noteq> []" "body_key b = Some k" "k \<noteq> []"
    by (auto simp: truthy_number_def truthy_string_def split: option.splits)
  from post_subscriptions_accepted [OF this] assms show ?thesis
    by (simp add: Let_def unique_keys_def new_subscription_def)
qed

lemma unique_keys_put_subscription:
  assumes "unique_keys d"
  shows "unique_keys (snd (put_subscription C k updates d))"
proof (cases "findOne (\<lambda>s. key s = k) (subscriptions d)")
  case None
  with assms show ?thesis by (simp add: put_subscription_cases)
next
  case (Some i)
  let ?xs = "subscriptions d"
  let ?r = "fst (assign_all C updates (?xs ! i, True))"
  from findOne_SomeD [OF Some] have i: "i < length ?xs"
    by simp
  have "distinct (map key (?xs[i := ?r]))"
    if "key ?r \<notin> set (map key (take i ?xs @ drop (Suc i) ?xs))"
  proof -
    from i have "?xs[i := ?r] = take i ?xs @ ?r # drop (Suc i) ?xs"
      by (rule upd_conv_take_nth_drop)
    moreover from assms have "distinct (map key (take i ?xs @ drop (Suc i) ?xs))"
      unfolding unique_keys_def by (rule distinct_others)
    ultimately show ?thesis using that by auto
  qed
  with assms Some show ?thesis
    by (simp add: put_subscription_cases unique_keys_def)
qed

lemma unique_keys_delete_subscription:
  assumes "unique_keys d"
  shows "unique_keys (snd (delete_subscription k d))"
proof (cases "findOne (\<lambda>s. key s = k) (subscriptions d)")
  case None
  with assms show ?thesis by (simp add: delete_subscription_def)
next
  case (Some i)
  from assms have "distinct (map key (take i (subscriptions d) @ drop (Suc i) (subscriptions d)))"
    unfolding unique_keys_def by (rule distinct_others)
  with Some show ?thesis
    by (simp add: delete_subscription_def unique_keys_def)
qed

end
